theory Spec2Isabelle
  imports Main
begin

section \<open>The github\_key module: data model\<close>

text \<open>
  A shallow embedding of \<^verbatim>\<open>lib/ansible/modules/extras/source_control/github_key.py\<close>.
  Python exceptions and \<^verbatim>\<open>module.fail_json\<close> (which ends the process) are values
  of the type \<open>error\<close>; every function that touches the network takes the state of
  the network and returns it, together with either an error or its result.
\<close>

datatype error =
    FailJson string       \<comment> \<open>\<^verbatim>\<open>module.fail_json(msg=...)\<close>: the invocation ends with this message\<close>
  | AttributeError        \<comment> \<open>raised by \<^verbatim>\<open>re.info\<close>: the module \<^verbatim>\<open>re\<close> has no attribute \<^verbatim>\<open>info\<close>\<close>
  | ValueError            \<comment> \<open>raised by \<^verbatim>\<open>json.loads\<close> on a body that is not JSON\<close>
  | TypeError             \<comment> \<open>raised by \<^verbatim>\<open>key['title']\<close> when the listing is not an array of objects\<close>

text \<open>A key record as the service's JSON gives it, with the seven fields that
  \<^verbatim>\<open>create_key\<close> writes in check mode.\<close>

record remote_key =
  key_id :: int
  key_key :: string
  key_title :: string
  key_url :: string
  key_created_at :: string
  key_read_only :: bool
  key_verified :: bool

text \<open>The decoded body of a response: \<^verbatim>\<open>json.loads(self.content)\<close>.\<close>

datatype body =
    KeyArray "remote_key list"
  | KeyObject remote_key
  | NotJson

datatype http_method = GET | POST | DELETE

fun method_name :: "http_method \<Rightarrow> string" where
  "method_name GET = ''GET''"
| "method_name POST = ''POST''"
| "method_name DELETE = ''DELETE''"

text \<open>What \<^verbatim>\<open>request\<close> hands to \<^verbatim>\<open>fetch_url\<close>. The body of a POST is the
  dictionary given to \<^verbatim>\<open>json.dumps\<close>, kept as an association list.\<close>

record http_request =
  req_method :: http_method
  req_url :: string
  req_data :: "(string \<times> string) list option"
  req_headers :: "(string \<times> string) list"

text \<open>The \<^verbatim>\<open>info\<close> dictionary of \<^verbatim>\<open>fetch_url\<close>: the status, the message and the
  response headers under their lower-case names.\<close>

record http_info =
  info_status :: int
  info_msg :: string
  info_headers :: "string \<rightharpoonup> string"

record GitHubResponse =
  content :: body
  info :: http_info

record GitHubSession =
  token :: string

record datetime =
  dt_year :: nat
  dt_month :: nat
  dt_day :: nat
  dt_hour :: nat
  dt_minute :: nat
  dt_second :: nat

text \<open>
  The state an invocation runs in: \<open>world\<close> is whatever stands behind
  \<^verbatim>\<open>fetch_url\<close> (the remote service), \<open>sent\<close> the requests handed to
  \<^verbatim>\<open>fetch_url\<close> so far, oldest first, and \<open>utcnow\<close> the reading of the clock.
\<close>

record 'w net =
  world :: 'w
  sent :: "http_request list"
  utcnow :: datetime

text \<open>\<^verbatim>\<open>fetch_url\<close> is imported from \<^verbatim>\<open>ansible.module_utils.urls\<close>; it is a
  parameter of the model: given the world and a request it answers with a body and
  an \<^verbatim>\<open>info\<close> dictionary, and a new world.\<close>

type_synonym 'w fetch = "'w \<Rightarrow> http_request \<Rightarrow> (body \<times> http_info) \<times> 'w"

type_synonym ('a, 'w) outcome = "(error + 'a) \<times> 'w net"

section \<open>Strings\<close>

definition API_BASE :: string where
  "API_BASE = ''https://api.github.com''"

text \<open>The two messages of \<^verbatim>\<open>main\<close>'s validation.\<close>

definition invalid_format_msg :: string where
  "invalid_format_msg = ''\"pubkey\" parameter has an invalid format''"

definition required_msg :: string where
  "required_msg = ''\"pubkey\" is required when state=present''"

text \<open>\<^verbatim>\<open>s.split(sep)\<close> for a one-character separator: every occurrence of the
  separator ends a field, so that neighbouring separators give empty fields.\<close>

fun split_on :: "char \<Rightarrow> string \<Rightarrow> string list" where
  "split_on sep [] = [[]]"
| "split_on sep (c # cs) =
     (if c = sep then [] # split_on sep cs
      else (case split_on sep cs of
              [] \<Rightarrow> [[c]]
            | t # ts \<Rightarrow> (c # t) # ts))"

text \<open>\<^verbatim>\<open>sep.join(parts)\<close>.\<close>

fun join :: "string \<Rightarrow> string list \<Rightarrow> string" where
  "join sep [] = []"
| "join sep [p] = p"
| "join sep (p # q # ps) = p @ sep @ join sep (q # ps)"

definition digit :: "nat \<Rightarrow> char" where
  "digit d = ''0123456789'' ! d"

text \<open>The decimal numeral of an integer, as \<^verbatim>\<open>str.format\<close> writes it.\<close>

fun str_nat :: "nat \<Rightarrow> string" where
  "str_nat n = (if n < 10 then [digit n] else str_nat (n div 10) @ [digit (n mod 10)])"

declare str_nat.simps [simp del]

definition str_int :: "int \<Rightarrow> string" where
  "str_int i = (if i < 0 then CHR ''-'' # str_nat (nat (- i)) else str_nat (nat i))"

text \<open>Zero-padded fields of fixed width, as \<^verbatim>\<open>%m %d %H %M %S\<close> (two digits) and
  \<^verbatim>\<open>%Y\<close> (four digits for the years 1000 to 9999) write them.\<close>

definition two_digits :: "nat \<Rightarrow> string" where
  "two_digits n = [digit (n div 10 mod 10), digit (n mod 10)]"

definition four_digits :: "nat \<Rightarrow> string" where
  "four_digits n =
     [digit (n div 1000 mod 10), digit (n div 100 mod 10), digit (n div 10 mod 10), digit (n mod 10)]"

text \<open>\<^verbatim>\<open>datetime.strftime(now, '%Y-%m-%dT%H:%M:%SZ')\<close>.\<close>

definition strftime :: "datetime \<Rightarrow> string" where
  "strftime now =
     four_digits (dt_year now) @ ''-'' @ two_digits (dt_month now) @ ''-'' @ two_digits (dt_day now)
     @ ''T'' @ two_digits (dt_hour now) @ '':'' @ two_digits (dt_minute now) @ '':''
     @ two_digits (dt_second now) @ ''Z''"

section \<open>GitHubResponse and GitHubSession\<close>

definition json :: "GitHubResponse \<Rightarrow> error + body" where
  "json self = (case content self of NotJson \<Rightarrow> Inl ValueError | b \<Rightarrow> Inr b)"

text \<open>
  \<^verbatim>\<open>links\<close>: when the response has a \<^verbatim>\<open>link\<close> header the next statement reads
  \<^verbatim>\<open>re.info['link']\<close>, an attribute of the regular-expression module that does not
  exist, and raises; the statements after it (the \<^verbatim>\<open>findall\<close> and the loop that
  fills the dictionary) are never reached. Without the header the empty dictionary
  is returned.
\<close>

definition links :: "GitHubResponse \<Rightarrow> error + (string \<rightharpoonup> string)" where
  "links self =
     (if info_headers (info self) ''link'' \<noteq> None then Inl AttributeError
      else Inr Map.empty)"

definition request ::
  "'w fetch \<Rightarrow> GitHubSession \<Rightarrow> http_method \<Rightarrow> string \<Rightarrow> (string \<times> string) list option
    \<Rightarrow> 'w net \<Rightarrow> (GitHubResponse, 'w) outcome" where
  "request fetch_url self method url data n =
     (let headers = [(''Authorization'', ''token '' @ token self),
                     (''Content-Type'', ''application/json''),
                     (''Accept'', ''application/vnd.github.v3+json'')];
          rq = \<lparr>req_method = method, req_url = url, req_data = data, req_headers = headers\<rparr>;
          ((response, inf), w) = fetch_url (world n) rq;
          n' = n\<lparr>world := w, sent := sent n @ [rq]\<rparr>
      in if \<not> (200 \<le> info_status inf \<and> info_status inf < 400)
         then (Inl (FailJson ('' failed to send request '' @ method_name method @ '' to '' @ url
                              @ '': '' @ info_msg inf)), n')
         else (Inr \<lparr>content = response, info = inf\<rparr>, n'))"

section \<open>Listing, creating and deleting keys\<close>

text \<open>
  The loop of \<^verbatim>\<open>get_all_keys\<close>: \<open>url\<close> is \<open>None\<close> for Python's \<^verbatim>\<open>None\<close>, and the
  loop runs while \<open>url\<close> is a non-empty string. \<open>yielded\<close> holds the keys produced so
  far. The generator is consumed by a list comprehension that reads
  \<^verbatim>\<open>key['title']\<close> of every element, so a body that is a single object (whose
  iteration gives field names) ends in a \<open>TypeError\<close> at its first element.
\<close>

function get_all_keys_loop ::
  "'w fetch \<Rightarrow> GitHubSession \<Rightarrow> string option \<Rightarrow> remote_key list \<Rightarrow> 'w net
    \<Rightarrow> (remote_key list, 'w) outcome" where
  "get_all_keys_loop fetch_url session url yielded n =
     (case url of
        None \<Rightarrow> (Inr yielded, n)
      | Some u \<Rightarrow>
          if u = [] then (Inr yielded, n)
          else (case request fetch_url session GET u None n of
                  (Inl e, n') \<Rightarrow> (Inl e, n')
                | (Inr r, n') \<Rightarrow>
                    (case json r of
                       Inl e \<Rightarrow> (Inl e, n')
                     | Inr (KeyArray ks) \<Rightarrow>
                         (case links r of
                            Inl e \<Rightarrow> (Inl e, n')
                          | Inr l \<Rightarrow>
                              get_all_keys_loop fetch_url session (l ''next'') (yielded @ ks) n')
                     | Inr _ \<Rightarrow> (Inl TypeError, n'))))"
  by pat_completeness auto
termination
  by (relation "measure (\<lambda>(fetch_url, session, url, yielded, n). if url = None then 0 else 1)")
     (auto simp: links_def split: if_splits)

declare get_all_keys_loop.simps [simp del]

definition get_all_keys :: "'w fetch \<Rightarrow> GitHubSession \<Rightarrow> 'w net \<Rightarrow> (remote_key list, 'w) outcome" where
  "get_all_keys fetch_url session n =
     get_all_keys_loop fetch_url session (Some (API_BASE @ ''/user/keys'')) [] n"

definition create_key ::
  "'w fetch \<Rightarrow> GitHubSession \<Rightarrow> string \<Rightarrow> string \<Rightarrow> bool \<Rightarrow> 'w net \<Rightarrow> (body, 'w) outcome" where
  "create_key fetch_url session name pubkey check_mode n =
     (if check_mode then
        (let now = utcnow n
         in (Inr (KeyObject \<lparr>key_id = 0,
                             key_key = pubkey,
                             key_title = name,
                             key_url = ''http://example.com/CHECK_MODE_GITHUB_KEY'',
                             key_created_at = strftime now,
                             key_read_only = False,
                             key_verified = False\<rparr>), n))
      else
        (case request fetch_url session POST (API_BASE @ ''/user/keys'')
                (Some [(''title'', name), (''key'', pubkey)]) n of
           (Inl e, n') \<Rightarrow> (Inl e, n')
         | (Inr r, n') \<Rightarrow> (json r, n')))"

text \<open>The \<^verbatim>\<open>for\<close> loop of \<^verbatim>\<open>delete_keys\<close>: one DELETE per key, at the URL that ends
  in the key's identifier; the first failing request ends the invocation.\<close>

fun delete_each :: "'w fetch \<Rightarrow> GitHubSession \<Rightarrow> remote_key list \<Rightarrow> 'w net \<Rightarrow> (unit, 'w) outcome" where
  "delete_each fetch_url session [] n = (Inr (), n)"
| "delete_each fetch_url session (key # to_delete) n =
     (case request fetch_url session DELETE
             (API_BASE @ ''/user/keys/'' @ str_int (key_id key)) None n of
        (Inl e, n') \<Rightarrow> (Inl e, n')
      | (Inr r, n') \<Rightarrow> delete_each fetch_url session to_delete n')"

definition delete_keys ::
  "'w fetch \<Rightarrow> GitHubSession \<Rightarrow> remote_key list \<Rightarrow> bool \<Rightarrow> 'w net \<Rightarrow> (unit, 'w) outcome" where
  "delete_keys fetch_url session to_delete check_mode n =
     (if check_mode then (Inr (), n)
      else delete_each fetch_url session to_delete n)"

section \<open>The two reconcilers\<close>

record absent_result =
  a_changed :: bool
  a_deleted_keys :: "remote_key list"

record present_result =
  changed :: bool
  deleted_keys :: "remote_key list"
  matching_keys :: "remote_key list"
  key :: body

definition ensure_key_absent ::
  "'w fetch \<Rightarrow> GitHubSession \<Rightarrow> string \<Rightarrow> bool \<Rightarrow> 'w net \<Rightarrow> (absent_result, 'w) outcome" where
  "ensure_key_absent fetch_url session name check_mode n =
     (case get_all_keys fetch_url session n of
        (Inl e, n1) \<Rightarrow> (Inl e, n1)
      | (Inr all_keys, n1) \<Rightarrow>
          (let to_delete = filter (\<lambda>key. key_title key = name) all_keys
           in case delete_keys fetch_url session to_delete check_mode n1 of
                (Inl e, n2) \<Rightarrow> (Inl e, n2)
              | (Inr _, n2) \<Rightarrow>
                  (Inr \<lparr>a_changed = (to_delete \<noteq> []), a_deleted_keys = to_delete\<rparr>, n2)))"

text \<open>
  \<^verbatim>\<open>ensure_key_present\<close>. The pair \<open>(deleted_keys, matching_keys)\<close> is reassigned
  when the matches are deleted; the two \<open>let\<close>s below are that assignment.
  \<^verbatim>\<open>matching_keys[0]\<close> is read only where the list is known to be non-empty.
\<close>

definition ensure_key_present ::
  "'w fetch \<Rightarrow> GitHubSession \<Rightarrow> string \<Rightarrow> string \<Rightarrow> bool \<Rightarrow> bool \<Rightarrow> 'w net
    \<Rightarrow> (present_result, 'w) outcome" where
  "ensure_key_present fetch_url session name pubkey force check_mode n =
     (case get_all_keys fetch_url session n of
        (Inl e, n1) \<Rightarrow> (Inl e, n1)
      | (Inr all_keys, n1) \<Rightarrow>
          (let matching_keys0 = filter (\<lambda>k. key_title k = name) all_keys;
               replace = (matching_keys0 \<noteq> [] \<and> force \<and> key_key (hd matching_keys0) \<noteq> pubkey)
           in case (if replace then delete_keys fetch_url session matching_keys0 check_mode n1
                    else (Inr (), n1)) of
                (Inl e, n2) \<Rightarrow> (Inl e, n2)
              | (Inr _, n2) \<Rightarrow>
                  (let deleted = (if replace then matching_keys0 else []);
                       matching = (if replace then [] else matching_keys0)
                   in case (if matching = []
                            then create_key fetch_url session name pubkey check_mode n2
                            else (Inr (KeyObject (hd matching)), n2)) of
                        (Inl e, n3) \<Rightarrow> (Inl e, n3)
                      | (Inr k, n3) \<Rightarrow>
                          (Inr \<lparr>changed = (deleted \<noteq> [] \<or> matching = []),
                                deleted_keys = deleted,
                                matching_keys = matching,
                                key = k\<rparr>, n3))))"

section \<open>main\<close>

datatype state = present | absent

text \<open>The parameters as \<^verbatim>\<open>AnsibleModule\<close> hands them over: \<open>pubkey\<close> is \<open>None\<close>
  when the parameter was not given; \<open>state\<close> is one of its two choices.\<close>

record params =
  p_token :: string
  p_name :: string
  p_pubkey :: "string option"
  p_state :: state
  p_force :: bool
  p_check_mode :: bool

text \<open>
  Lines 200 to 209 of \<^verbatim>\<open>main\<close>: \<^verbatim>\<open>if pubkey:\<close> holds for a non-empty string; the
  value of \<open>pubkey\<close> after the block is returned.
\<close>

definition check_pubkey :: "state \<Rightarrow> string option \<Rightarrow> error + string option" where
  "check_pubkey st pubkey =
     (case pubkey of
        Some (c # cs) \<Rightarrow>
          (let pubkey_parts = split_on CHR '' '' (c # cs)
           in if length pubkey_parts < 2
              then Inl (FailJson invalid_format_msg)
              else Inr (Some (join '' '' (take 2 pubkey_parts))))
      | _ \<Rightarrow>
          if st = present
          then Inl (FailJson required_msg)
          else Inr pubkey)"

datatype result = PresentResult present_result | AbsentResult absent_result

text \<open>
  \<^verbatim>\<open>main\<close> after the parameters are read. With \<open>state=present\<close> the check leaves a
  string in \<open>pubkey\<close> or has ended the invocation (lemma \<open>check_pubkey_present_Some\<close>
  below), so the \<open>None\<close> branch of the argument handed to \<^verbatim>\<open>ensure_key_present\<close>
  is never taken. \<^verbatim>\<open>module.exit_json(**result)\<close> is the returned result.
\<close>

definition main :: "'w fetch \<Rightarrow> params \<Rightarrow> 'w net \<Rightarrow> (result, 'w) outcome" where
  "main fetch_url p n =
     (case check_pubkey (p_state p) (p_pubkey p) of
        Inl e \<Rightarrow> (Inl e, n)
      | Inr pubkey \<Rightarrow>
          (let session = \<lparr>token = p_token p\<rparr>
           in case p_state p of
                present \<Rightarrow>
                  (case ensure_key_present fetch_url session (p_name p) (case pubkey of Some k \<Rightarrow> k | None \<Rightarrow> [])
                          (p_force p) (p_check_mode p) n of
                     (Inl e, n') \<Rightarrow> (Inl e, n')
                   | (Inr r, n') \<Rightarrow> (Inr (PresentResult r), n'))
              | absent \<Rightarrow>
                  (case ensure_key_absent fetch_url session (p_name p) (p_check_mode p) n of
                     (Inl e, n') \<Rightarrow> (Inl e, n')
                   | (Inr r, n') \<Rightarrow> (Inr (AbsentResult r), n'))))"

section \<open>Vocabulary of the statements\<close>

text \<open>The requests that the module builds, written out once so that the statements
  below can name them.\<close>

definition session_headers :: "GitHubSession \<Rightarrow> (string \<times> string) list" where
  "session_headers session =
     [(''Authorization'', ''token '' @ token session),
      (''Content-Type'', ''application/json''),
      (''Accept'', ''application/vnd.github.v3+json'')]"

definition list_request :: "GitHubSession \<Rightarrow> http_request" where
  "list_request session =
     \<lparr>req_method = GET, req_url = ''https://api.github.com/user/keys'', req_data = None,
      req_headers = session_headers session\<rparr>"

definition delete_request :: "GitHubSession \<Rightarrow> remote_key \<Rightarrow> http_request" where
  "delete_request session k =
     \<lparr>req_method = DELETE, req_url = ''https://api.github.com/user/keys/'' @ str_int (key_id k),
      req_data = None, req_headers = session_headers session\<rparr>"

definition create_request :: "GitHubSession \<Rightarrow> string \<Rightarrow> string \<Rightarrow> http_request" where
  "create_request session name pubkey =
     \<lparr>req_method = POST, req_url = ''https://api.github.com/user/keys'',
      req_data = Some [(''title'', name), (''key'', pubkey)],
      req_headers = session_headers session\<rparr>"

text \<open>The requests issued between two states of the network.\<close>

definition issued :: "'w net \<Rightarrow> 'w net \<Rightarrow> http_request list" where
  "issued n n' = drop (length (sent n)) (sent n')"

text \<open>An error is a validation error when it is one of the two failures of
  \<^verbatim>\<open>main\<close>'s check of \<^verbatim>\<open>pubkey\<close>.\<close>

definition validation_error :: "error \<Rightarrow> bool" where
  "validation_error e = (e = FailJson invalid_format_msg \<or> e = FailJson required_msg)"

text \<open>How \<^verbatim>\<open>main\<close> wraps the outcome of \<^verbatim>\<open>ensure_key_absent\<close>.\<close>

definition absent_outcome :: "(absent_result, 'w) outcome \<Rightarrow> (result, 'w) outcome" where
  "absent_outcome out = (case out of (Inl e, n') \<Rightarrow> (Inl e, n') | (Inr r, n') \<Rightarrow> (Inr (AbsentResult r), n'))"

text \<open>The shape \<^verbatim>\<open>YYYY-MM-DDTHH:MM:SSZ\<close>: twenty characters, digits everywhere but
  at the six separators.\<close>

definition is_digit :: "char \<Rightarrow> bool" where
  "is_digit c = (c \<in> set ''0123456789'')"

definition iso_utc_shape :: "string \<Rightarrow> bool" where
  "iso_utc_shape s =
     (length s = 20
      \<and> list_all is_digit (take 4 s) \<and> s ! 4 = CHR ''-''
      \<and> list_all is_digit (take 2 (drop 5 s)) \<and> s ! 7 = CHR ''-''
      \<and> list_all is_digit (take 2 (drop 8 s)) \<and> s ! 10 = CHR ''T''
      \<and> list_all is_digit (take 2 (drop 11 s)) \<and> s ! 13 = CHR '':''
      \<and> list_all is_digit (take 2 (drop 14 s)) \<and> s ! 16 = CHR '':''
      \<and> list_all is_digit (take 2 (drop 17 s)) \<and> s ! 19 = CHR ''Z'')"

text \<open>The record that \<^verbatim>\<open>create_key\<close> fabricates in check mode.\<close>

definition synthetic_key :: "string \<Rightarrow> string \<Rightarrow> datetime \<Rightarrow> remote_key" where
  "synthetic_key name pubkey now =
     \<lparr>key_id = 0, key_key = pubkey, key_title = name,
      key_url = ''http://example.com/CHECK_MODE_GITHUB_KEY'',
      key_created_at = strftime now, key_read_only = False, key_verified = False\<rparr>"

section \<open>Key normalization in the specification's words\<close>

text \<open>
  The specification describes the normalization as splitting on whitespace and
  keeping the first two tokens. These definitions follow those words (tokens are the
  maximal runs of characters that are not whitespace) and are compared with
  \<open>check_pubkey\<close>, which follows the code.
\<close>

definition is_whitespace :: "char \<Rightarrow> bool" where
  "is_whitespace c = (c \<in> set [CHR '' '', CHR 0x09, CHR 0x0A, CHR 0x0B, CHR 0x0C, CHR 0x0D])"

fun spec_whitespace_tokens :: "string \<Rightarrow> string list" where
  "spec_whitespace_tokens [] = []"
| "spec_whitespace_tokens (c # cs) =
     (if is_whitespace c then spec_whitespace_tokens cs
      else (case cs of
              [] \<Rightarrow> [[c]]
            | d # ds \<Rightarrow>
                if is_whitespace d then [c] # spec_whitespace_tokens cs
                else (case spec_whitespace_tokens cs of
                        [] \<Rightarrow> [[c]]
                      | t # ts \<Rightarrow> (c # t) # ts)))"

definition spec_normalize_pubkey :: "string \<Rightarrow> error + string" where
  "spec_normalize_pubkey raw =
     (let tokens = spec_whitespace_tokens raw
      in if length tokens < 2 then Inl (FailJson invalid_format_msg)
         else Inr (tokens ! 0 @ '' '' @ tokens ! 1))"

section \<open>A model of the remote service\<close>

text \<open>
  Modelled from the spec: the remote service behind \<^verbatim>\<open>fetch_url\<close> is not part of
  the repository. This store follows the API surface that section 6 of the
  specification lists: \<^verbatim>\<open>GET /user/keys\<close> lists the keys, \<^verbatim>\<open>POST /user/keys\<close> with a
  title and a key creates a record under a fresh identifier, and
  \<^verbatim>\<open>DELETE /user/keys/{id}\<close> removes the record with that identifier. The listing is
  answered in a single page, without a \<^verbatim>\<open>link\<close> header. Any other request is answered
  with status 404.
\<close>

record store =
  stored_keys :: "remote_key list"
  next_id :: int
  stamp :: string

definition reply :: "int \<Rightarrow> string \<Rightarrow> http_info" where
  "reply code text = \<lparr>info_status = code, info_msg = text, info_headers = Map.empty\<rparr>"

definition stored_new :: "store \<Rightarrow> string \<Rightarrow> string \<Rightarrow> remote_key" where
  "stored_new s title k =
     \<lparr>key_id = next_id s, key_key = k, key_title = title,
      key_url = ''https://api.github.com/user/keys/'' @ str_int (next_id s),
      key_created_at = stamp s, key_read_only = False, key_verified = True\<rparr>"

definition store_fetch :: "store fetch" where
  "store_fetch s rq =
     (case req_method rq of
        GET \<Rightarrow>
          if req_url rq = ''https://api.github.com/user/keys''
          then ((KeyArray (stored_keys s), reply 200 ''OK''), s)
          else ((NotJson, reply 404 ''Not Found''), s)
      | POST \<Rightarrow>
          (case req_data rq of
             Some d \<Rightarrow>
               (case (map_of d ''title'', map_of d ''key'') of
                  (Some title, Some k) \<Rightarrow>
                    if req_url rq = ''https://api.github.com/user/keys''
                    then ((KeyObject (stored_new s title k), reply 201 ''Created''),
                          s\<lparr>stored_keys := stored_keys s @ [stored_new s title k],
                            next_id := next_id s + 1\<rparr>)
                    else ((NotJson, reply 404 ''Not Found''), s)
                | _ \<Rightarrow> ((NotJson, reply 422 ''Unprocessable Entity''), s))
           | None \<Rightarrow> ((NotJson, reply 422 ''Unprocessable Entity''), s))
      | DELETE \<Rightarrow>
          if list_ex (\<lambda>k. req_url rq = ''https://api.github.com/user/keys/'' @ str_int (key_id k))
               (stored_keys s)
          then ((NotJson, reply 204 ''No Content''),
                s\<lparr>stored_keys :=
                    filter (\<lambda>k. req_url rq \<noteq> ''https://api.github.com/user/keys/'' @ str_int (key_id k))
                      (stored_keys s)\<rparr>)
          else ((NotJson, reply 404 ''Not Found''), s))"

text \<open>
  A second service, for the listing alone: three pages of one key each, the first two
  carrying a \<^verbatim>\<open>Link\<close> header whose \<^verbatim>\<open>next\<close> relation names the following page.
\<close>

definition page_key :: "int \<Rightarrow> string \<Rightarrow> remote_key" where
  "page_key i title =
     \<lparr>key_id = i, key_key = ''ssh-rsa AAAA'' @ str_int i, key_title = title,
      key_url = ''https://api.github.com/user/keys/'' @ str_int i,
      key_created_at = ''2016-01-01T00:00:00Z'', key_read_only = False, key_verified = True\<rparr>"

definition three_pages :: "unit fetch" where
  "three_pages w rq =
     (if req_method rq = GET \<and> req_url rq = ''https://api.github.com/user/keys'' then
        ((KeyArray [page_key 1 ''first''],
          \<lparr>info_status = 200, info_msg = ''OK'',
           info_headers = [''link'' \<mapsto> ''<https://api.github.com/user/keys?page=2>; rel=\"next\"'']\<rparr>), w)
      else if req_method rq = GET \<and> req_url rq = ''https://api.github.com/user/keys?page=2'' then
        ((KeyArray [page_key 2 ''second''],
          \<lparr>info_status = 200, info_msg = ''OK'',
           info_headers = [''link'' \<mapsto> ''<https://api.github.com/user/keys?page=3>; rel=\"next\"'']\<rparr>), w)
      else if req_method rq = GET \<and> req_url rq = ''https://api.github.com/user/keys?page=3'' then
        ((KeyArray [page_key 3 ''third''], reply 200 ''OK''), w)
      else ((NotJson, reply 404 ''Not Found''), w))"

section \<open>Sample inputs\<close>

definition sample_session :: GitHubSession where
  "sample_session = \<lparr>token = ''0123abcd''\<rparr>"

definition sample_now :: datetime where
  "sample_now = \<lparr>dt_year = 2016, dt_month = 7, dt_day = 4, dt_hour = 9, dt_minute = 5, dt_second = 0\<rparr>"

definition sample_key :: "int \<Rightarrow> string \<Rightarrow> string \<Rightarrow> remote_key" where
  "sample_key i title k =
     \<lparr>key_id = i, key_key = k, key_title = title,
      key_url = ''https://api.github.com/user/keys/'' @ str_int i,
      key_created_at = ''2016-01-01T00:00:00Z'', key_read_only = False, key_verified = True\<rparr>"

definition sample_net :: "remote_key list \<Rightarrow> store net" where
  "sample_net ks =
     \<lparr>world = \<lparr>stored_keys = ks, next_id = 100, stamp = ''2016-07-04T09:05:01Z''\<rparr>,
      sent = [], utcnow = sample_now\<rparr>"

definition sample_pages_net :: "unit net" where
  "sample_pages_net = \<lparr>world = (), sent = [], utcnow = sample_now\<rparr>"

definition sample_params :: "string option \<Rightarrow> state \<Rightarrow> params" where
  "sample_params pubkey st =
     \<lparr>p_token = ''0123abcd'', p_name = ''deploy-key'', p_pubkey = pubkey, p_state = st,
      p_force = True, p_check_mode = False\<rparr>"

section \<open>Splitting and joining\<close>

lemma split_on_not_Nil: "split_on sep s \<noteq> []"
  by (induction s) (auto split: list.splits)

lemma split_on_no_sep: "sep \<notin> set s \<Longrightarrow> split_on sep s = [s]"
  by (induction s) auto

lemma split_on_append_sep:
  "sep \<notin> set f \<Longrightarrow> split_on sep (f @ sep # s) = f # split_on sep s"
  by (induction f) (auto simp: split_on_not_Nil split: list.splits)

lemma split_on_join:
  "fs \<noteq> [] \<Longrightarrow> \<forall>f \<in> set fs. sep \<notin> set f \<Longrightarrow> split_on sep (join [sep] fs) = fs"
proof (induction "[sep]" fs rule: join.induct)
  case 1
  then show ?case by simp
next
  case (2 p)
  then show ?case by (simp add: split_on_no_sep)
next
  case (3 p q ps)
  then show ?case by (simp add: split_on_append_sep)
qed

lemma length_split_on: "length (split_on sep s) = Suc (count_list s sep)"
  by (induction s) (auto simp: split_on_not_Nil split: list.splits)

lemma one_field_iff: "length (split_on sep s) < 2 \<longleftrightarrow> sep \<notin> set s"
  by (simp add: length_split_on count_list_0_iff)

lemma join_take2: "2 \<le> length fs \<Longrightarrow> join sep (take 2 fs) = fs ! 0 @ sep @ fs ! 1"
  by (cases fs; cases "tl fs") auto

section \<open>Validation of the parameters\<close>

lemma check_pubkey_no_space:
  "p \<noteq> [] \<Longrightarrow> CHR '' '' \<notin> set p \<Longrightarrow> check_pubkey st (Some p) = Inl (FailJson invalid_format_msg)"
  by (cases p) (simp_all add: check_pubkey_def split_on_no_sep del: split_on.simps)

lemma check_pubkey_space:
  "CHR '' '' \<in> set p \<Longrightarrow> \<exists>k. check_pubkey st (Some p) = Inr (Some k)"
  using one_field_iff [of "CHR '' ''" p]
  by (cases p) (simp_all add: check_pubkey_def Let_def del: split_on.simps)

lemma check_pubkey_absent_empty:
  "check_pubkey absent None = Inr None" "check_pubkey absent (Some []) = Inr (Some [])"
  by (simp_all add: check_pubkey_def)

lemma check_pubkey_present_empty:
  "check_pubkey present None = Inl (FailJson required_msg)"
  "check_pubkey present (Some []) = Inl (FailJson required_msg)"
  by (simp_all add: check_pubkey_def)

lemma check_pubkey_present_Some:
  "check_pubkey present pubkey = Inr v \<Longrightarrow> \<exists>k. v = Some k"
  by (auto simp: check_pubkey_def Let_def split: option.splits list.splits if_splits)

section \<open>Requests and the listing\<close>

lemma request_error:
  "request fetch_url session method url data n = (Inl e, n') \<Longrightarrow> \<not> validation_error e"
  by (auto simp: request_def Let_def validation_error_def invalid_format_msg_def required_msg_def
           split: prod.splits if_splits)

lemma request_sent:
  "request fetch_url session method url data n = (r, n') \<Longrightarrow>
     sent n' = sent n @ [\<lparr>req_method = method, req_url = url, req_data = data,
                          req_headers = session_headers session\<rparr>]
     \<and> utcnow n' = utcnow n"
  by (auto simp: request_def Let_def session_headers_def split: prod.splits if_splits)

lemma get_all_keys_once:
  "get_all_keys fetch_url session n =
     (case request fetch_url session GET ''https://api.github.com/user/keys'' None n of
        (Inl e, n') \<Rightarrow> (Inl e, n')
      | (Inr r, n') \<Rightarrow>
          (case json r of
             Inl e \<Rightarrow> (Inl e, n')
           | Inr (KeyArray ks) \<Rightarrow>
               (if info_headers (info r) ''link'' \<noteq> None then (Inl AttributeError, n')
                else (Inr ks, n'))
           | Inr _ \<Rightarrow> (Inl TypeError, n')))"
  unfolding get_all_keys_def
  apply (subst get_all_keys_loop.simps)
  apply (simp add: API_BASE_def links_def split: prod.splits sum.splits body.splits)
  apply (subst get_all_keys_loop.simps)
  apply simp
  done

lemma get_all_keys_sent:
  "get_all_keys fetch_url session n = (r, n') \<Longrightarrow>
     sent n' = sent n @ [list_request session] \<and> utcnow n' = utcnow n"
  unfolding get_all_keys_once list_request_def
  by (auto split: prod.splits sum.splits body.splits if_splits dest!: request_sent)

lemma get_all_keys_error:
  "get_all_keys fetch_url session n = (Inl e, n') \<Longrightarrow> \<not> validation_error e"
  unfolding get_all_keys_once
  by (auto simp: validation_error_def json_def split: prod.splits sum.splits body.splits if_splits dest!: request_error)

lemma delete_each_error:
  "delete_each fetch_url session to_delete n = (Inl e, n') \<Longrightarrow> \<not> validation_error e"
proof (induction to_delete arbitrary: n)
  case Nil
  then show ?case by simp
next
  case (Cons k ks)
  then show ?case
    by (auto split: prod.splits sum.splits dest: request_error)
qed

lemma ensure_key_absent_error:
  "ensure_key_absent fetch_url session name check_mode n = (Inl e, n') \<Longrightarrow> \<not> validation_error e"
  by (auto simp: ensure_key_absent_def delete_keys_def Let_def
           split: prod.splits sum.splits if_splits
           dest: get_all_keys_error delete_each_error)

lemma sample_listing:
  "get_all_keys store_fetch session (sample_net ks) =
     (Inr ks, (sample_net ks)\<lparr>sent := [list_request session]\<rparr>)"
  by (simp add: get_all_keys_once request_def store_fetch_def sample_net_def reply_def json_def
        list_request_def session_headers_def Let_def)

lemma sample_pages_listing:
  "get_all_keys three_pages session sample_pages_net =
     (Inl AttributeError, sample_pages_net\<lparr>sent := [list_request session]\<rparr>)"
  by (simp add: get_all_keys_once request_def three_pages_def sample_pages_net_def json_def
        list_request_def session_headers_def Let_def)

section \<open>What the operations send\<close>

lemma request_delete_sent:
  "request fetch_url session DELETE (API_BASE @ ''/user/keys/'' @ str_int (key_id k)) None n = (r, n')
     \<Longrightarrow> sent n' = sent n @ [delete_request session k] \<and> utcnow n' = utcnow n"
  by (drule request_sent) (simp add: delete_request_def API_BASE_def)

lemma delete_each_sent:
  "delete_each fetch_url session ds n = (Inr u, n') \<Longrightarrow>
     sent n' = sent n @ map (delete_request session) ds \<and> utcnow n' = utcnow n"
proof (induction ds arbitrary: n)
  case Nil
  then show ?case by simp
next
  case (Cons k ds)
  then show ?case
    by (auto simp: delete_request_def API_BASE_def split: prod.splits sum.splits dest!: request_sent)
qed

lemma delete_each_sent_prefix:
  "delete_each fetch_url session ds n = (r, n') \<Longrightarrow>
     \<exists>j \<le> length ds. sent n' = sent n @ map (delete_request session) (take j ds)"
proof (induction ds arbitrary: n)
  case Nil
  then show ?case by simp
next
  case (Cons k ds)
  obtain r1 n1 where req: "request fetch_url session DELETE (API_BASE @ ''/user/keys/'' @ str_int (key_id k)) None n = (r1, n1)"
    by (cases "request fetch_url session DELETE (API_BASE @ ''/user/keys/'' @ str_int (key_id k)) None n")
  then have s1: "sent n1 = sent n @ [delete_request session k]"
    by (rule request_delete_sent [THEN conjunct1])
  show ?case
  proof (cases r1)
    case (Inl e)
    with req Cons.prems have "n' = n1" by simp
    with s1 have "sent n' = sent n @ map (delete_request session) (take 1 (k # ds))" by simp
    then show ?thesis by (intro exI [of _ 1]) simp
  next
    case (Inr x)
    with req Cons.prems have "delete_each fetch_url session ds n1 = (r, n')" by simp
    from Cons.IH [OF this] obtain j where "j \<le> length ds"
      and "sent n' = sent n1 @ map (delete_request session) (take j ds)" by blast
    with s1 have "sent n' = sent n @ map (delete_request session) (take (Suc j) (k # ds))" by simp
    with \<open>j \<le> length ds\<close> show ?thesis by (intro exI [of _ "Suc j"]) simp
  qed
qed

lemma delete_each_ok:
  assumes "\<forall>w rq. 200 \<le> info_status (snd (fst (fetch_url w rq))) \<and> info_status (snd (fst (fetch_url w rq))) < 400"
  shows "\<exists>n'. delete_each fetch_url session ds n = (Inr (), n')"
proof (induction ds arbitrary: n)
  case Nil
  then show ?case by simp
next
  case (Cons k ds)
  have "\<exists>r n1. request fetch_url session DELETE (API_BASE @ ''/user/keys/'' @ str_int (key_id k)) None n = (Inr r, n1)"
    using assms [rule_format, of "world n"]
    by (simp add: request_def Let_def split: prod.splits) (metis fst_conv snd_conv)
  then show ?case using Cons.IH by auto
qed

lemma issued_append: "sent n' = sent n @ rs \<Longrightarrow> issued n n' = rs"
  by (simp add: issued_def)

lemma create_key_check_mode:
  "create_key fetch_url session name pubkey True n = (Inr (KeyObject (synthetic_key name pubkey (utcnow n))), n)"
  by (simp add: create_key_def synthetic_key_def)

lemma create_key_sent:
  "create_key fetch_url session name pubkey False n = (r, n') \<Longrightarrow>
     sent n' = sent n @ [create_request session name pubkey] \<and> utcnow n' = utcnow n"
  by (auto simp: create_key_def create_request_def API_BASE_def split: prod.splits sum.splits dest!: request_sent)

lemma is_digit_digit: "d < 10 \<Longrightarrow> is_digit (digit d)"
proof -
  assume "d < 10"
  then have "d \<in> {0,1,2,3,4,5,6,7,8,9}" by auto
  then show ?thesis by (auto simp: digit_def is_digit_def)
qed

lemma strftime_shape: "iso_utc_shape (strftime now)"
  by (simp add: iso_utc_shape_def strftime_def two_digits_def four_digits_def is_digit_digit)

lemma present_listing_error:
  "get_all_keys fetch_url session n = (Inl e, n1) \<Longrightarrow>
     ensure_key_present fetch_url session name pubkey force check_mode n = (Inl e, n1)"
  by (simp add: ensure_key_present_def)

lemma present_check_mode:
  assumes "get_all_keys fetch_url session n = (Inr all_keys, n1)"
  shows "ensure_key_present fetch_url session name pubkey force True n =
    (let ms = filter (\<lambda>k. key_title k = name) all_keys;
         replace = (ms \<noteq> [] \<and> force \<and> key_key (hd ms) \<noteq> pubkey)
     in (Inr \<lparr>changed = (replace \<or> ms = []),
              deleted_keys = (if replace then ms else []),
              matching_keys = (if replace then [] else ms),
              key = (if replace \<or> ms = [] then KeyObject (synthetic_key name pubkey (utcnow n))
                     else KeyObject (hd ms))\<rparr>, n1))"
proof -
  have "utcnow n1 = utcnow n" using assms by (auto dest: get_all_keys_sent)
  then show ?thesis
    using assms by (auto simp: ensure_key_present_def delete_keys_def create_key_check_mode Let_def)
qed

lemma present_matching:
  assumes "get_all_keys fetch_url session n = (Inr all_keys, n1)"
    and "ensure_key_present fetch_url session name pubkey force check_mode n = (Inr r, n')"
  shows "matching_keys r =
           (if filter (\<lambda>k. key_title k = name) all_keys = []
               \<or> (force \<and> key_key (hd (filter (\<lambda>k. key_title k = name) all_keys)) \<noteq> pubkey)
            then [] else filter (\<lambda>k. key_title k = name) all_keys)"
    and "deleted_keys r =
           (if filter (\<lambda>k. key_title k = name) all_keys \<noteq> []
               \<and> force \<and> key_key (hd (filter (\<lambda>k. key_title k = name) all_keys)) \<noteq> pubkey
            then filter (\<lambda>k. key_title k = name) all_keys else [])"
    and "changed r = (deleted_keys r \<noteq> [] \<or> matching_keys r = [])"
    and "matching_keys r \<noteq> [] \<Longrightarrow> key r = KeyObject (hd (matching_keys r))"
  using assms
  by (auto simp: ensure_key_present_def Let_def split: prod.splits sum.splits if_splits)

lemma present_sent:
  assumes "ensure_key_present fetch_url session name pubkey force False n = (Inr r, n')"
  shows "sent n' = sent n @ list_request session # map (delete_request session) (deleted_keys r)
                     @ (if matching_keys r = [] then [create_request session name pubkey] else [])"
proof -
  obtain all_keys n1 where listing: "get_all_keys fetch_url session n = (Inr all_keys, n1)"
    using assms by (auto simp: ensure_key_present_def split: prod.splits sum.splits)
  then have s1: "sent n1 = sent n @ [list_request session]"
    by (auto dest: get_all_keys_sent)
  let ?ms = "filter (\<lambda>k. key_title k = name) all_keys"
  let ?replace = "?ms \<noteq> [] \<and> force \<and> key_key (hd ?ms) \<noteq> pubkey"
  obtain n2 where del: "(if ?replace then delete_keys fetch_url session ?ms False n1 else (Inr (), n1)) = (Inr (), n2)"
    using assms listing
    by (auto simp: ensure_key_present_def Let_def split: prod.splits sum.splits if_splits)
  then have s2: "sent n2 = sent n1 @ map (delete_request session) (if ?replace then ?ms else [])"
    by (auto simp: delete_keys_def split: if_splits dest: delete_each_sent)
  have dk: "deleted_keys r = (if ?replace then ?ms else [])"
    using present_matching(2) [OF listing assms] by auto
  have mk: "matching_keys r = (if ?replace then [] else ?ms)"
    using present_matching(1) [OF listing assms] by auto
  show ?thesis
  proof (cases "matching_keys r = []")
    case True
    then have "\<exists>k. create_key fetch_url session name pubkey False n2 = (Inr k, n')"
      using assms listing del mk
      by (auto simp: ensure_key_present_def Let_def split: prod.splits sum.splits if_splits)
    then have "sent n' = sent n2 @ [create_request session name pubkey]"
      by (auto dest: create_key_sent)
    with s1 s2 dk True show ?thesis by simp
  next
    case False
    then have "n' = n2"
      using assms listing del mk
      by (auto simp: ensure_key_present_def Let_def split: prod.splits sum.splits if_splits)
    with s1 s2 dk False show ?thesis by simp
  qed
qed

section \<open>Whitespace tokens\<close>

lemma tokens_single:
  "f \<noteq> [] \<Longrightarrow> \<forall>c \<in> set f. \<not> is_whitespace c \<Longrightarrow> spec_whitespace_tokens f = [f]"
proof (induction f)
  case Nil
  then show ?case by simp
next
  case (Cons c cs)
  then show ?case by (cases cs) auto
qed

lemma tokens_append:
  "f \<noteq> [] \<Longrightarrow> \<forall>c \<in> set f. \<not> is_whitespace c \<Longrightarrow> is_whitespace w \<Longrightarrow>
     spec_whitespace_tokens (f @ w # rest) = f # spec_whitespace_tokens rest"
proof (induction f)
  case Nil
  then show ?case by simp
next
  case (Cons c cs)
  then show ?case by (cases cs) auto
qed

lemma tokens_join:
  "fs \<noteq> [] \<Longrightarrow> \<forall>f \<in> set fs. f \<noteq> [] \<and> (\<forall>c \<in> set f. \<not> is_whitespace c) \<Longrightarrow>
     spec_whitespace_tokens (join '' '' fs) = fs"
proof (induction "'' ''" fs rule: join.induct)
  case 1
  then show ?case by simp
next
  case (2 p)
  then show ?case by (simp add: tokens_single)
next
  case (3 p q ps)
  have "is_whitespace CHR '' ''" by (simp add: is_whitespace_def)
  with 3 show ?case by (simp add: tokens_append)
qed

lemma check_pubkey_fields:
  assumes "\<forall>f \<in> set fs. CHR '' '' \<notin> set f" and "join '' '' fs \<noteq> []"
  shows "check_pubkey st (Some (join '' '' fs)) =
     (if length fs < 2 then Inl (FailJson invalid_format_msg)
      else Inr (Some (fs ! 0 @ '' '' @ fs ! 1)))"
proof -
  from assms(2) have ne: "fs \<noteq> []" by auto
  have sp: "split_on CHR '' '' (join '' '' fs) = fs"
    using split_on_join [OF ne assms(1)] .
  obtain c cs where j: "join '' '' fs = c # cs"
    using assms(2) by (cases "join '' '' fs") auto
  show ?thesis
    unfolding check_pubkey_def j option.case list.case
    unfolding j [symmetric] sp Let_def
    by (simp add: join_take2)
qed

lemma main_absent:
  "main fetch_url (p\<lparr>p_state := absent, p_pubkey := pk\<rparr>) n =
     (if \<exists>raw. pk = Some raw \<and> raw \<noteq> [] \<and> CHR '' '' \<notin> set raw
      then (Inl (FailJson invalid_format_msg), n)
      else absent_outcome (ensure_key_absent fetch_url \<lparr>token = p_token p\<rparr> (p_name p) (p_check_mode p) n))"
proof (cases pk)
  case None
  then show ?thesis by (simp add: main_def check_pubkey_absent_empty absent_outcome_def)
next
  case (Some raw)
  show ?thesis
  proof (cases "raw \<noteq> [] \<and> CHR '' '' \<notin> set raw")
    case True
    then show ?thesis using Some by (simp add: main_def check_pubkey_no_space)
  next
    case False
    then consider "raw = []" | "CHR '' '' \<in> set raw" by auto
    then show ?thesis
    proof cases
      case 1
      then show ?thesis using Some by (simp add: main_def check_pubkey_absent_empty absent_outcome_def)
    next
      case 2
      then obtain k where "check_pubkey absent (Some raw) = Inr (Some k)"
        using check_pubkey_space by blast
      then show ?thesis using Some 2 by (auto simp add: main_def absent_outcome_def)
    qed
  qed
qed

section \<open>Decimal numerals\<close>

lemma digit_inj: "a < 10 \<Longrightarrow> b < 10 \<Longrightarrow> digit a = digit b \<Longrightarrow> a = b"
proof -
  assume a: "a < 10" and b: "b < 10" and e: "digit a = digit b"
  have A: "a \<in> {0,1,2,3,4,5,6,7,8,9}" using a by auto
  have B: "b \<in> {0,1,2,3,4,5,6,7,8,9}" using b by auto
  show ?thesis using A B e by (auto simp: digit_def)
qed

lemma digit_not_minus: "a < 10 \<Longrightarrow> digit a \<noteq> CHR ''-''"
proof -
  assume a: "a < 10"
  have A: "a \<in> {0,1,2,3,4,5,6,7,8,9}" using a by auto
  then show ?thesis by (auto simp: digit_def)
qed

lemma str_nat_not_Nil: "str_nat n \<noteq> []" "[] \<noteq> str_nat n"
  by (subst str_nat.simps, simp)+

lemma str_nat_hd: "hd (str_nat n) \<noteq> CHR ''-''"
proof (induction n rule: str_nat.induct)
  case (1 n)
  show ?case
  proof (cases "n < 10")
    case True
    then show ?thesis by (subst str_nat.simps) (simp add: digit_not_minus)
  next
    case False
    then show ?thesis using 1 by (subst str_nat.simps) (simp add: str_nat_not_Nil)
  qed
qed

lemma str_nat_inj: "str_nat a = str_nat b \<Longrightarrow> a = b"
proof (induction a arbitrary: b rule: str_nat.induct)
  case (1 a)
  show ?case
  proof (cases "a < 10")
    case True
    note a = this
    show ?thesis
    proof (cases "b < 10")
      case True
      with a 1(2) show ?thesis
        by (subst (asm) str_nat.simps, subst (asm) (2) str_nat.simps) (simp add: digit_inj)
    next
      case False
      with a 1(2) show ?thesis
        by (subst (asm) str_nat.simps, subst (asm) (2) str_nat.simps) (simp add: str_nat_not_Nil)
    qed
  next
    case False
    note a = this
    show ?thesis
    proof (cases "b < 10")
      case True
      with a 1(2) show ?thesis
        by (subst (asm) str_nat.simps, subst (asm) (2) str_nat.simps) (simp add: str_nat_not_Nil)
    next
      case False
      with a 1(2) have "str_nat (a div 10) = str_nat (b div 10)" and "digit (a mod 10) = digit (b mod 10)"
        by (subst (asm) str_nat.simps, subst (asm) (2) str_nat.simps, simp)+
      then have "a div 10 = b div 10" and "a mod 10 = b mod 10"
        using 1(1) [OF a] by (auto intro: digit_inj)
      then show ?thesis by (metis div_mult_mod_eq)
    qed
  qed
qed

lemma str_int_inj: "str_int a = str_int b \<Longrightarrow> a = b"
proof -
  assume e: "str_int a = str_int b"
  have neg: "\<And>n m. CHR ''-'' # str_nat n \<noteq> str_nat m"
    using str_nat_hd str_nat_not_Nil by (metis list.sel(1))
  show ?thesis
  proof (cases "a < 0"; cases "b < 0")
    assume "a < 0" "b < 0"
    with e have "nat (- a) = nat (- b)" by (simp add: str_int_def str_nat_inj)
    with \<open>a < 0\<close> \<open>b < 0\<close> show ?thesis by simp
  next
    assume "a < 0" "\<not> b < 0"
    with e neg show ?thesis by (simp add: str_int_def)
  next
    assume "\<not> a < 0" "b < 0"
    with e neg [of "nat (- b)" "nat a"] show ?thesis by (simp add: str_int_def)
  next
    assume "\<not> a < 0" "\<not> b < 0"
    with e have "nat a = nat b" by (simp add: str_int_def str_nat_inj)
    with \<open>\<not> a < 0\<close> \<open>\<not> b < 0\<close> show ?thesis by simp
  qed
qed

lemma two_digits_str_nat:
  assumes "n < 100"
  shows "two_digits n = (if n < 10 then digit 0 # str_nat n else str_nat n)"
proof (cases "n < 10")
  case True
  have "str_nat n = [digit n]" using True by (subst str_nat.simps) simp
  with True show ?thesis by (simp add: two_digits_def)
next
  case False
  with assms have lt: "n div 10 < 10" by simp
  have a: "str_nat n = str_nat (n div 10) @ [digit (n mod 10)]"
    using False by (subst str_nat.simps) simp
  have b: "str_nat (n div 10) = [digit (n div 10)]"
    using lt by (subst str_nat.simps) simp
  from False lt show ?thesis by (simp only: a b two_digits_def) simp
qed

lemma four_digits_str_nat:
  assumes "1000 \<le> n" and "n < 10000"
  shows "four_digits n = str_nat n"
proof -
  have n0: "\<not> n < 10" using assms by simp
  have n1: "\<not> n div 10 < 10" using assms by simp
  have n2: "\<not> n div 100 < 10" using assms by simp
  have n3: "n div 1000 < 10" using assms by simp
  have e2: "n div 10 div 10 = n div 100" by (simp add: div_mult2_eq [symmetric])
  have e3: "n div 100 div 10 = n div 1000" by (simp add: div_mult2_eq [symmetric])
  have m3: "n div 1000 mod 10 = n div 1000" using n3 by simp
  have a: "str_nat n = str_nat (n div 10) @ [digit (n mod 10)]"
    using n0 by (subst str_nat.simps) simp
  have b: "str_nat (n div 10) = str_nat (n div 100) @ [digit (n div 10 mod 10)]"
    using n1 by (subst str_nat.simps) (simp add: e2)
  have c: "str_nat (n div 100) = str_nat (n div 1000) @ [digit (n div 100 mod 10)]"
    using n2 by (subst str_nat.simps) (simp add: e3)
  have d: "str_nat (n div 1000) = [digit (n div 1000)]"
    using n3 by (subst str_nat.simps) simp
  show ?thesis by (simp only: a b c d four_digits_def m3) simp
qed

section \<open>The store\<close>

lemma store_listing:
  "get_all_keys store_fetch session n =
     (Inr (stored_keys (world n)), n\<lparr>sent := sent n @ [list_request session]\<rparr>)"
  by (simp add: get_all_keys_once request_def store_fetch_def reply_def json_def
        list_request_def session_headers_def Let_def)

lemma store_create:
  "create_key store_fetch session name pubkey False n =
     (Inr (KeyObject (stored_new (world n) name pubkey)),
      n\<lparr>world := (world n)\<lparr>stored_keys := stored_keys (world n) @ [stored_new (world n) name pubkey],
                            next_id := next_id (world n) + 1\<rparr>,
        sent := sent n @ [create_request session name pubkey]\<rparr>)"
  by (simp add: create_key_def request_def store_fetch_def reply_def json_def API_BASE_def
        create_request_def session_headers_def Let_def)

lemma str_int_eq_iff: "(str_int a = str_int b) = (a = b)"
  using str_int_inj by auto

lemma store_delete:
  assumes "k \<in> set (stored_keys (world n))" and "distinct (map key_id (stored_keys (world n)))"
  shows "\<exists>r. request store_fetch session DELETE (API_BASE @ ''/user/keys/'' @ str_int (key_id k)) None n =
     (Inr r, n\<lparr>world := (world n)\<lparr>stored_keys := filter (\<lambda>x. x \<noteq> k) (stored_keys (world n))\<rparr>,
               sent := sent n @ [delete_request session k]\<rparr>)"
proof -
  have same: "\<And>x. x \<in> set (stored_keys (world n)) \<Longrightarrow> (key_id k = key_id x) = (x = k)"
    using assms by (auto simp: distinct_map inj_on_def)
  then have flt: "filter (\<lambda>x. key_id k \<noteq> key_id x) (stored_keys (world n))
               = filter (\<lambda>x. x \<noteq> k) (stored_keys (world n))"
    by (auto intro: filter_cong)
  have ex: "list_ex (\<lambda>x. key_id k = key_id x) (stored_keys (world n))"
    using assms(1) by (auto simp: list_ex_iff)
  show ?thesis
    by (simp add: request_def store_fetch_def reply_def API_BASE_def str_int_eq_iff ex flt
          delete_request_def session_headers_def Let_def)
qed

lemma store_delete_each:
  "set ds \<subseteq> set (stored_keys (world n)) \<Longrightarrow> distinct ds \<Longrightarrow>
   distinct (map key_id (stored_keys (world n))) \<Longrightarrow>
   delete_each store_fetch session ds n =
     (Inr (), n\<lparr>world := (world n)\<lparr>stored_keys := filter (\<lambda>x. x \<notin> set ds) (stored_keys (world n))\<rparr>,
                sent := sent n @ map (delete_request session) ds\<rparr>)"
proof (induction ds arbitrary: n)
  case Nil
  then show ?case by simp
next
  case (Cons k ds)
  let ?n1 = "n\<lparr>world := (world n)\<lparr>stored_keys := filter (\<lambda>x. x \<noteq> k) (stored_keys (world n))\<rparr>,
               sent := sent n @ [delete_request session k]\<rparr>"
  from Cons.prems obtain r where
    req: "request store_fetch session DELETE (API_BASE @ ''/user/keys/'' @ str_int (key_id k)) None n = (Inr r, ?n1)"
    using store_delete [of k n session] by auto
  have sub: "set ds \<subseteq> set (stored_keys (world ?n1))"
    using Cons.prems by auto
  have dis: "distinct (map key_id (stored_keys (world ?n1)))"
    using Cons.prems by (simp add: distinct_map_filter)
  have "delete_each store_fetch session ds ?n1 =
     (Inr (), ?n1\<lparr>world := (world ?n1)\<lparr>stored_keys := filter (\<lambda>x. x \<notin> set ds) (stored_keys (world ?n1))\<rparr>,
                sent := sent ?n1 @ map (delete_request session) ds\<rparr>)"
    using Cons.IH [OF sub _ dis] Cons.prems by simp
  then show ?case
    using req by (simp add: conj_commute)
qed

lemma store_absent:
  assumes "distinct (map key_id (stored_keys (world n)))"
  shows "ensure_key_absent store_fetch session name check_mode n =
     (Inr \<lparr>a_changed = (filter (\<lambda>k. key_title k = name) (stored_keys (world n)) \<noteq> []),
           a_deleted_keys = filter (\<lambda>k. key_title k = name) (stored_keys (world n))\<rparr>,
      if check_mode then n\<lparr>sent := sent n @ [list_request session]\<rparr>
      else n\<lparr>world := (world n)\<lparr>stored_keys := filter (\<lambda>k. key_title k \<noteq> name) (stored_keys (world n))\<rparr>,
             sent := sent n @ list_request session
                       # map (delete_request session) (filter (\<lambda>k. key_title k = name) (stored_keys (world n)))\<rparr>)"
proof -
  let ?n1 = "n\<lparr>sent := sent n @ [list_request session]\<rparr>"
  let ?ms = "filter (\<lambda>k. key_title k = name) (stored_keys (world n))"
  have f: "filter (\<lambda>x. x \<notin> set ?ms) (stored_keys (world n)) = filter (\<lambda>k. key_title k \<noteq> name) (stored_keys (world n))"
    by (auto intro: filter_cong)
  have "delete_each store_fetch session ?ms ?n1 =
     (Inr (), ?n1\<lparr>world := (world ?n1)\<lparr>stored_keys := filter (\<lambda>x. x \<notin> set ?ms) (stored_keys (world ?n1))\<rparr>,
                sent := sent ?n1 @ map (delete_request session) ?ms\<rparr>)"
    using assms by (intro store_delete_each) (auto simp: distinct_map)
  then have d: "delete_each store_fetch session ?ms ?n1 =
     (Inr (), n\<lparr>world := (world n)\<lparr>stored_keys := filter (\<lambda>k. key_title k \<noteq> name) (stored_keys (world n))\<rparr>,
                sent := sent n @ list_request session # map (delete_request session) ?ms\<rparr>)"
    using f by simp
  show ?thesis
    by (simp add: ensure_key_absent_def store_listing delete_keys_def d Let_def)
qed


lemma stored_new_fields:
  "key_key (stored_new s title k) = k" "key_title (stored_new s title k) = title"
  "key_id (stored_new s title k) = next_id s"
  by (simp_all add: stored_new_def)

lemma store_present_keep:
  assumes "filter (\<lambda>k. key_title k = name) (stored_keys (world n)) = K # rest"
    and "\<not> force \<or> key_key K = pubkey"
  shows "ensure_key_present store_fetch session name pubkey force check_mode n =
     (Inr \<lparr>changed = False, deleted_keys = [], matching_keys = K # rest, key = KeyObject K\<rparr>,
      n\<lparr>sent := sent n @ [list_request session]\<rparr>)"
  using assms by (auto simp: ensure_key_present_def store_listing Let_def)

lemma store_present_create:
  assumes "filter (\<lambda>k. key_title k = name) (stored_keys (world n)) = []"
  shows "ensure_key_present store_fetch session name pubkey force False n =
     (Inr \<lparr>changed = True, deleted_keys = [], matching_keys = [],
           key = KeyObject (stored_new (world n) name pubkey)\<rparr>,
      n\<lparr>world := (world n)\<lparr>stored_keys := stored_keys (world n) @ [stored_new (world n) name pubkey],
                            next_id := next_id (world n) + 1\<rparr>,
        sent := sent n @ [list_request session, create_request session name pubkey]\<rparr>)"
  using assms by (simp add: ensure_key_present_def store_listing store_create Let_def)

lemma store_present_replace:
  assumes "distinct (map key_id (stored_keys (world n)))"
    and "filter (\<lambda>k. key_title k = name) (stored_keys (world n)) = K # rest"
    and "key_key K \<noteq> pubkey"
  shows "ensure_key_present store_fetch session name pubkey True False n =
     (Inr \<lparr>changed = True, deleted_keys = K # rest, matching_keys = [],
           key = KeyObject (stored_new (world n) name pubkey)\<rparr>,
      n\<lparr>world := (world n)\<lparr>stored_keys := filter (\<lambda>k. key_title k \<noteq> name) (stored_keys (world n))
                                            @ [stored_new (world n) name pubkey],
                            next_id := next_id (world n) + 1\<rparr>,
        sent := sent n @ list_request session # map (delete_request session) (K # rest)
                  @ [create_request session name pubkey]\<rparr>)"
proof -
  let ?n1 = "n\<lparr>sent := sent n @ [list_request session]\<rparr>"
  let ?ms = "filter (\<lambda>k. key_title k = name) (stored_keys (world n))"
  have f: "filter (\<lambda>x. x \<notin> set ?ms) (stored_keys (world n)) = filter (\<lambda>k. key_title k \<noteq> name) (stored_keys (world n))"
    by (auto intro: filter_cong)
  have "delete_each store_fetch session ?ms ?n1 =
     (Inr (), ?n1\<lparr>world := (world ?n1)\<lparr>stored_keys := filter (\<lambda>x. x \<notin> set ?ms) (stored_keys (world ?n1))\<rparr>,
                sent := sent ?n1 @ map (delete_request session) ?ms\<rparr>)"
    using assms(1) by (intro store_delete_each) (auto simp: distinct_map)
  then have d: "delete_each store_fetch session (K # rest) ?n1 =
     (Inr (), n\<lparr>world := (world n)\<lparr>stored_keys := filter (\<lambda>k. key_title k \<noteq> name) (stored_keys (world n))\<rparr>,
                sent := sent n @ list_request session # map (delete_request session) (K # rest)\<rparr>)"
    using f assms(2) by simp
  have new: "\<And>ks. stored_new ((world n)\<lparr>stored_keys := ks\<rparr>) name pubkey = stored_new (world n) name pubkey"
    by (simp add: stored_new_def)
  show ?thesis
    using assms(2,3)
    by (simp add: ensure_key_present_def store_listing delete_keys_def d store_create new Let_def
             del: delete_each.simps)
qed

lemma sample_store_fields:
  "stored_keys (world (sample_net ks)) = ks" "next_id (world (sample_net ks)) = 100"
  "sent (sample_net ks) = []" "utcnow (sample_net ks) = sample_now"
  by (simp_all add: sample_net_def)

lemma sample_key_fields:
  "key_id (sample_key i title k) = i" "key_title (sample_key i title k) = title"
  "key_key (sample_key i title k) = k"
  by (simp_all add: sample_key_def)

lemma strftime_sample: "strftime sample_now = ''2016-07-04T09:05:00Z''"
  by (simp add: strftime_def sample_now_def two_digits_def four_digits_def digit_def)

lemma sample_store_distinct:
  "distinct (map key_id (stored_keys (world (sample_net
      [sample_key 11 ''deploy-key'' ''ssh-rsa AAAA'', sample_key 12 ''laptop'' ''ssh-rsa CCCC'',
       sample_key 13 ''deploy-key'' ''ssh-rsa DDDD'']))))"
  by (simp add: sample_net_def sample_key_def)

section \<open>Claims about the listing\<close>

text \<open>
  C1. The listing does not follow \<^verbatim>\<open>next\<close> links. Against the service of three
  pages, \<^verbatim>\<open>get_all_keys\<close> sends the one request for the first page and then ends in
  the \<open>AttributeError\<close> that \<^verbatim>\<open>links\<close> raises on a response with a \<^verbatim>\<open>link\<close> header;
  it does not return the three keys in server order, as the claim has it.
\<close>

theorem paginated_listing_raises:
  "get_all_keys three_pages sample_session sample_pages_net
     = (Inl AttributeError, sample_pages_net\<lparr>sent := [list_request sample_session]\<rparr>)
   \<and> fst (get_all_keys three_pages sample_session sample_pages_net)
       \<noteq> Inr [page_key 1 ''first'', page_key 2 ''second'', page_key 3 ''third'']"
  by (simp add: sample_pages_listing)

section \<open>Claims about the reconcilers\<close>

text \<open>
  C2 (as amended). Against the store, let \<open>K\<close> be the first key whose title is the
  name, \<open>rest\<close> the later ones, and let the material of \<open>K\<close> differ from the requested
  \<open>B\<close>. With \<open>force\<close> and outside check mode, one DELETE is sent for each of
  \<open>K # rest\<close> and then one POST; the outcome has \<open>changed\<close>, its deleted keys are
  \<open>K # rest\<close>, its matching keys are empty, its key is the created record with material
  \<open>B\<close>, and that record is the only one left under the name. With \<open>force\<close> in check
  mode the outcome has the same three fields and the synthetic record with material
  \<open>B\<close>, and nothing but the listing is sent: the store is as it was. Without \<open>force\<close>
  nothing is deleted, \<open>changed\<close> is false, and the key is \<open>K\<close>. For every service and
  every successful run, \<open>changed\<close> holds exactly when keys are reported deleted or the
  create path was taken; outside check mode the first means that a DELETE was sent
  and the second that a POST was sent.
\<close>

theorem force_semantics:
  assumes "distinct (map key_id (stored_keys (world n)))"
    and "filter (\<lambda>k. key_title k = name) (stored_keys (world n)) = K # rest"
    and "key_key K \<noteq> B"
  shows
   "ensure_key_present store_fetch session name B True False n =
      (Inr \<lparr>changed = True, deleted_keys = K # rest, matching_keys = [],
            key = KeyObject (stored_new (world n) name B)\<rparr>,
       n\<lparr>world := (world n)\<lparr>stored_keys := filter (\<lambda>k. key_title k \<noteq> name) (stored_keys (world n))
                                             @ [stored_new (world n) name B],
                             next_id := next_id (world n) + 1\<rparr>,
         sent := sent n @ list_request session # map (delete_request session) (K # rest)
                   @ [create_request session name B]\<rparr>)
    \<and> key_key (stored_new (world n) name B) = B
    \<and> filter (\<lambda>k. key_title k = name)
         (filter (\<lambda>k. key_title k \<noteq> name) (stored_keys (world n)) @ [stored_new (world n) name B])
        = [stored_new (world n) name B]
    \<and> ensure_key_present store_fetch session name B True True n =
      (Inr \<lparr>changed = True, deleted_keys = K # rest, matching_keys = [],
            key = KeyObject (synthetic_key name B (utcnow n))\<rparr>,
       n\<lparr>sent := sent n @ [list_request session]\<rparr>)
    \<and> key_key (synthetic_key name B (utcnow n)) = B
    \<and> ensure_key_present store_fetch session name B False check_mode n =
      (Inr \<lparr>changed = False, deleted_keys = [], matching_keys = K # rest, key = KeyObject K\<rparr>,
       n\<lparr>sent := sent n @ [list_request session]\<rparr>)
    \<and> (ensure_key_present fetch_url session' name' pubkey force dry n0 = (Inr r, n') \<longrightarrow>
         changed r = (deleted_keys r \<noteq> [] \<or> matching_keys r = [])
         \<and> (\<not> dry \<longrightarrow>
              (deleted_keys r \<noteq> []) = (\<exists>rq \<in> set (issued n0 n'). req_method rq = DELETE)
              \<and> (matching_keys r = []) = (\<exists>rq \<in> set (issued n0 n'). req_method rq = POST)))"
proof (intro conjI impI)
  show "ensure_key_present store_fetch session name B True False n =
      (Inr \<lparr>changed = True, deleted_keys = K # rest, matching_keys = [],
            key = KeyObject (stored_new (world n) name B)\<rparr>,
       n\<lparr>world := (world n)\<lparr>stored_keys := filter (\<lambda>k. key_title k \<noteq> name) (stored_keys (world n))
                                             @ [stored_new (world n) name B],
                             next_id := next_id (world n) + 1\<rparr>,
         sent := sent n @ list_request session # map (delete_request session) (K # rest)
                   @ [create_request session name B]\<rparr>)"
    using assms by (rule store_present_replace)
next
  show "key_key (stored_new (world n) name B) = B" by (simp add: stored_new_fields)
next
  show "filter (\<lambda>k. key_title k = name)
         (filter (\<lambda>k. key_title k \<noteq> name) (stored_keys (world n)) @ [stored_new (world n) name B])
        = [stored_new (world n) name B]"
    by (simp add: stored_new_fields)
next
  have listing: "get_all_keys store_fetch session n =
      (Inr (stored_keys (world n)), n\<lparr>sent := sent n @ [list_request session]\<rparr>)"
    by (rule store_listing)
  show "ensure_key_present store_fetch session name B True True n =
      (Inr \<lparr>changed = True, deleted_keys = K # rest, matching_keys = [],
            key = KeyObject (synthetic_key name B (utcnow n))\<rparr>,
       n\<lparr>sent := sent n @ [list_request session]\<rparr>)"
    using assms(2,3) by (simp add: present_check_mode [OF listing] Let_def)
next
  show "key_key (synthetic_key name B (utcnow n)) = B" by (simp add: synthetic_key_def)
next
  show "ensure_key_present store_fetch session name B False check_mode n =
      (Inr \<lparr>changed = False, deleted_keys = [], matching_keys = K # rest, key = KeyObject K\<rparr>,
       n\<lparr>sent := sent n @ [list_request session]\<rparr>)"
    using assms(2) by (intro store_present_keep) simp_all
next
  assume run: "ensure_key_present fetch_url session' name' pubkey force dry n0 = (Inr r, n')"
  then obtain all_keys n1 where listing: "get_all_keys fetch_url session' n0 = (Inr all_keys, n1)"
    by (auto simp: ensure_key_present_def split: prod.splits sum.splits)
  show "changed r = (deleted_keys r \<noteq> [] \<or> matching_keys r = [])"
    using present_matching(3) [OF listing run] .
next
  assume run: "ensure_key_present fetch_url session' name' pubkey force dry n0 = (Inr r, n')"
    and "\<not> dry"
  then have run': "ensure_key_present fetch_url session' name' pubkey force False n0 = (Inr r, n')"
    by simp
  have i: "issued n0 n' = list_request session' # map (delete_request session') (deleted_keys r)
                     @ (if matching_keys r = [] then [create_request session' name' pubkey] else [])"
    using present_sent [OF run'] by (rule issued_append)
  show "(deleted_keys r \<noteq> []) = (\<exists>rq \<in> set (issued n0 n'). req_method rq = DELETE)"
    unfolding i
    by (cases "deleted_keys r") (auto simp: list_request_def delete_request_def create_request_def)
  show "(matching_keys r = []) = (\<exists>rq \<in> set (issued n0 n'). req_method rq = POST)"
    unfolding i
    by (auto simp: list_request_def delete_request_def create_request_def)
qed

text \<open>
  A store with two keys named \<^verbatim>\<open>deploy-key\<close> and one other key: with \<open>force\<close> both are
  deleted and one is created; without \<open>force\<close> the first is the resulting key.
\<close>

theorem force_semantics_witness:
  "ensure_key_present store_fetch sample_session ''deploy-key'' ''ssh-rsa BBBB'' True False
     (sample_net [sample_key 11 ''deploy-key'' ''ssh-rsa AAAA'', sample_key 12 ''laptop'' ''ssh-rsa CCCC'',
                  sample_key 13 ''deploy-key'' ''ssh-rsa DDDD''])
   = (Inr \<lparr>changed = True,
           deleted_keys = [sample_key 11 ''deploy-key'' ''ssh-rsa AAAA'', sample_key 13 ''deploy-key'' ''ssh-rsa DDDD''],
           matching_keys = [],
           key = KeyObject \<lparr>key_id = 100, key_key = ''ssh-rsa BBBB'', key_title = ''deploy-key'',
                            key_url = ''https://api.github.com/user/keys/100'',
                            key_created_at = ''2016-07-04T09:05:01Z'',
                            key_read_only = False, key_verified = True\<rparr>\<rparr>,
      \<lparr>world = \<lparr>stored_keys =
                  [sample_key 12 ''laptop'' ''ssh-rsa CCCC'',
                   \<lparr>key_id = 100, key_key = ''ssh-rsa BBBB'', key_title = ''deploy-key'',
                    key_url = ''https://api.github.com/user/keys/100'',
                    key_created_at = ''2016-07-04T09:05:01Z'',
                    key_read_only = False, key_verified = True\<rparr>],
                next_id = 101, stamp = ''2016-07-04T09:05:01Z''\<rparr>,
       sent = [list_request sample_session,
               delete_request sample_session (sample_key 11 ''deploy-key'' ''ssh-rsa AAAA''),
               delete_request sample_session (sample_key 13 ''deploy-key'' ''ssh-rsa DDDD''),
               create_request sample_session ''deploy-key'' ''ssh-rsa BBBB''],
       utcnow = sample_now\<rparr>)
   \<and> fst (ensure_key_present store_fetch sample_session ''deploy-key'' ''ssh-rsa BBBB'' False False
     (sample_net [sample_key 11 ''deploy-key'' ''ssh-rsa AAAA'', sample_key 12 ''laptop'' ''ssh-rsa CCCC'',
                  sample_key 13 ''deploy-key'' ''ssh-rsa DDDD'']))
   = Inr \<lparr>changed = False, deleted_keys = [],
          matching_keys = [sample_key 11 ''deploy-key'' ''ssh-rsa AAAA'', sample_key 13 ''deploy-key'' ''ssh-rsa DDDD''],
          key = KeyObject (sample_key 11 ''deploy-key'' ''ssh-rsa AAAA'')\<rparr>"
proof -
  let ?ks = "[sample_key 11 ''deploy-key'' ''ssh-rsa AAAA'', sample_key 12 ''laptop'' ''ssh-rsa CCCC'',
              sample_key 13 ''deploy-key'' ''ssh-rsa DDDD'']"
  have d: "distinct (map key_id (stored_keys (world (sample_net ?ks))))"
    by (simp add: sample_store_fields sample_key_fields)
  have f: "filter (\<lambda>k. key_title k = ''deploy-key'') (stored_keys (world (sample_net ?ks)))
        = sample_key 11 ''deploy-key'' ''ssh-rsa AAAA'' # [sample_key 13 ''deploy-key'' ''ssh-rsa DDDD'']"
    by (simp add: sample_store_fields sample_key_fields)
  have k: "key_key (sample_key 11 ''deploy-key'' ''ssh-rsa AAAA'') \<noteq> ''ssh-rsa BBBB''"
    by (simp add: sample_key_fields)
  have s: "str_int 100 = ''100''" by code_simp
  note inst = force_semantics [OF d f k, of sample_session False]
  from inst [THEN conjunct1] have one: "ensure_key_present store_fetch sample_session ''deploy-key'' ''ssh-rsa BBBB'' True False
     (sample_net ?ks)
   = (Inr \<lparr>changed = True,
           deleted_keys = [sample_key 11 ''deploy-key'' ''ssh-rsa AAAA'', sample_key 13 ''deploy-key'' ''ssh-rsa DDDD''],
           matching_keys = [],
           key = KeyObject \<lparr>key_id = 100, key_key = ''ssh-rsa BBBB'', key_title = ''deploy-key'',
                            key_url = ''https://api.github.com/user/keys/100'',
                            key_created_at = ''2016-07-04T09:05:01Z'',
                            key_read_only = False, key_verified = True\<rparr>\<rparr>,
      \<lparr>world = \<lparr>stored_keys =
                  [sample_key 12 ''laptop'' ''ssh-rsa CCCC'',
                   \<lparr>key_id = 100, key_key = ''ssh-rsa BBBB'', key_title = ''deploy-key'',
                    key_url = ''https://api.github.com/user/keys/100'',
                    key_created_at = ''2016-07-04T09:05:01Z'',
                    key_read_only = False, key_verified = True\<rparr>],
                next_id = 101, stamp = ''2016-07-04T09:05:01Z''\<rparr>,
       sent = [list_request sample_session,
               delete_request sample_session (sample_key 11 ''deploy-key'' ''ssh-rsa AAAA''),
               delete_request sample_session (sample_key 13 ''deploy-key'' ''ssh-rsa DDDD''),
               create_request sample_session ''deploy-key'' ''ssh-rsa BBBB''],
       utcnow = sample_now\<rparr>)"
    by (simp add: sample_net_def sample_key_fields stored_new_def s)
  from inst [THEN conjunct2, THEN conjunct2, THEN conjunct2, THEN conjunct2, THEN conjunct2, THEN conjunct1]
  have two: "fst (ensure_key_present store_fetch sample_session ''deploy-key'' ''ssh-rsa BBBB'' False False
     (sample_net ?ks))
   = Inr \<lparr>changed = False, deleted_keys = [],
          matching_keys = [sample_key 11 ''deploy-key'' ''ssh-rsa AAAA'', sample_key 13 ''deploy-key'' ''ssh-rsa DDDD''],
          key = KeyObject (sample_key 11 ''deploy-key'' ''ssh-rsa AAAA'')\<rparr>"
    by simp
  from one two show ?thesis by (rule conjI)
qed

text \<open>
  C2 as stated fails in check mode: with \<open>force\<close> and a key of another material, the
  outcome reports the key as deleted, yet only the listing was sent and the store
  still holds the old key and no new one.
\<close>

theorem force_semantics_counterexample:
  "key_key (sample_key 11 ''deploy-key'' ''ssh-rsa AAAA'') \<noteq> ''ssh-rsa BBBB''
   \<and> ensure_key_present store_fetch sample_session ''deploy-key'' ''ssh-rsa BBBB'' True True
        (sample_net [sample_key 11 ''deploy-key'' ''ssh-rsa AAAA''])
     = (Inr \<lparr>changed = True, deleted_keys = [sample_key 11 ''deploy-key'' ''ssh-rsa AAAA''],
             matching_keys = [],
             key = KeyObject (synthetic_key ''deploy-key'' ''ssh-rsa BBBB'' sample_now)\<rparr>,
        \<lparr>world = \<lparr>stored_keys = [sample_key 11 ''deploy-key'' ''ssh-rsa AAAA''], next_id = 100,
                  stamp = ''2016-07-04T09:05:01Z''\<rparr>,
         sent = [list_request sample_session], utcnow = sample_now\<rparr>)"
proof -
  let ?n = "sample_net [sample_key 11 ''deploy-key'' ''ssh-rsa AAAA'']"
  have listing: "get_all_keys store_fetch sample_session ?n =
      (Inr (stored_keys (world ?n)), ?n\<lparr>sent := sent ?n @ [list_request sample_session]\<rparr>)"
    by (rule store_listing)
  show ?thesis
    by (simp add: present_check_mode [OF listing] Let_def sample_store_fields sample_key_fields)
       (simp add: sample_net_def)
qed

text \<open>
  C3 (as amended). Take a store whose identifiers are distinct and in which the
  invocation has something to do: no key has the title, or \<open>force\<close> is set and the
  first key with the title has another material. Outside check mode, the first of two
  invocations with the same arguments succeeds with \<open>changed\<close>, the second succeeds
  without \<open>changed\<close>, and after each of them exactly one key with the title is stored:
  the one created by the first run, whose material is the \<open>pubkey\<close> passed
  (\<^verbatim>\<open>main\<close> passes the normalized one).
\<close>

theorem present_twice:
  assumes "distinct (map key_id (stored_keys (world n)))"
    and "filter (\<lambda>k. key_title k = name) (stored_keys (world n)) = []
         \<or> (force \<and> key_key (hd (filter (\<lambda>k. key_title k = name) (stored_keys (world n)))) \<noteq> pubkey)"
  shows "\<exists>r1 n1 r2 n2.
      ensure_key_present store_fetch session name pubkey force False n = (Inr r1, n1)
    \<and> changed r1
    \<and> key r1 = KeyObject (stored_new (world n) name pubkey)
    \<and> filter (\<lambda>k. key_title k = name) (stored_keys (world n1)) = [stored_new (world n) name pubkey]
    \<and> ensure_key_present store_fetch session name pubkey force False n1 = (Inr r2, n2)
    \<and> \<not> changed r2
    \<and> key r2 = KeyObject (stored_new (world n) name pubkey)
    \<and> filter (\<lambda>k. key_title k = name) (stored_keys (world n2)) = [stored_new (world n) name pubkey]
    \<and> key_key (stored_new (world n) name pubkey) = pubkey
    \<and> key_title (stored_new (world n) name pubkey) = name"
proof -
  let ?new = "stored_new (world n) name pubkey"
  let ?ms = "filter (\<lambda>k. key_title k = name) (stored_keys (world n))"
  have first: "\<exists>r1 n1. ensure_key_present store_fetch session name pubkey force False n = (Inr r1, n1)
      \<and> changed r1 \<and> key r1 = KeyObject ?new
      \<and> stored_keys (world n1) = filter (\<lambda>k. key_title k \<noteq> name) (stored_keys (world n)) @ [?new]"
  proof (cases "?ms = []")
    case True
    then have "filter (\<lambda>k. key_title k \<noteq> name) (stored_keys (world n)) = stored_keys (world n)"
      by (simp add: filter_empty_conv)
    then show ?thesis
      using store_present_create [OF True, of session pubkey force] by simp
  next
    case False
    then obtain K rest where ms: "?ms = K # rest" by (cases ?ms) auto
    with assms(2) have "force" and "key_key K \<noteq> pubkey" by auto
    then show ?thesis
      using store_present_replace [OF assms(1) ms, of pubkey session] by simp
  qed
  then obtain r1 n1 where run1: "ensure_key_present store_fetch session name pubkey force False n = (Inr r1, n1)"
    and c1: "changed r1" and k1: "key r1 = KeyObject ?new"
    and st: "stored_keys (world n1) = filter (\<lambda>k. key_title k \<noteq> name) (stored_keys (world n)) @ [?new]"
    by blast
  have one: "filter (\<lambda>k. key_title k = name) (stored_keys (world n1)) = ?new # []"
    using st by (simp add: stored_new_fields)
  have run2: "ensure_key_present store_fetch session name pubkey force False n1 =
     (Inr \<lparr>changed = False, deleted_keys = [], matching_keys = ?new # [], key = KeyObject ?new\<rparr>,
      n1\<lparr>sent := sent n1 @ [list_request session]\<rparr>)"
    using one by (rule store_present_keep) (simp add: stored_new_fields)
  show ?thesis
    using run1 c1 k1 one run2 by (simp add: stored_new_fields)
qed

text \<open>
  A store that holds \<^verbatim>\<open>deploy-key\<close> with another material: replaced by the first
  run, left alone by the second.
\<close>

theorem present_twice_witness:
  "\<exists>r1 n1 r2 n2.
      ensure_key_present store_fetch sample_session ''deploy-key'' ''ssh-rsa BBBB'' True False
        (sample_net [sample_key 11 ''deploy-key'' ''ssh-rsa AAAA'', sample_key 12 ''laptop'' ''ssh-rsa CCCC''])
        = (Inr r1, n1)
    \<and> changed r1
    \<and> ensure_key_present store_fetch sample_session ''deploy-key'' ''ssh-rsa BBBB'' True False n1 = (Inr r2, n2)
    \<and> \<not> changed r2
    \<and> map key_key (filter (\<lambda>k. key_title k = ''deploy-key'') (stored_keys (world n1))) = [''ssh-rsa BBBB'']
    \<and> map key_key (filter (\<lambda>k. key_title k = ''deploy-key'') (stored_keys (world n2))) = [''ssh-rsa BBBB'']"
proof -
  let ?n = "sample_net [sample_key 11 ''deploy-key'' ''ssh-rsa AAAA'', sample_key 12 ''laptop'' ''ssh-rsa CCCC'']"
  have d: "distinct (map key_id (stored_keys (world ?n)))"
    by (simp add: sample_store_fields sample_key_fields)
  have w: "filter (\<lambda>k. key_title k = ''deploy-key'') (stored_keys (world ?n)) = []
         \<or> (True \<and> key_key (hd (filter (\<lambda>k. key_title k = ''deploy-key'') (stored_keys (world ?n)))) \<noteq> ''ssh-rsa BBBB'')"
    by (simp add: sample_store_fields sample_key_fields)
  from present_twice [OF d w, of sample_session] obtain r1 n1 r2 n2 where
      "ensure_key_present store_fetch sample_session ''deploy-key'' ''ssh-rsa BBBB'' True False ?n = (Inr r1, n1)"
      "changed r1"
      "ensure_key_present store_fetch sample_session ''deploy-key'' ''ssh-rsa BBBB'' True False n1 = (Inr r2, n2)"
      "\<not> changed r2"
      "filter (\<lambda>k. key_title k = ''deploy-key'') (stored_keys (world n1)) = [stored_new (world ?n) ''deploy-key'' ''ssh-rsa BBBB'']"
      "filter (\<lambda>k. key_title k = ''deploy-key'') (stored_keys (world n2)) = [stored_new (world ?n) ''deploy-key'' ''ssh-rsa BBBB'']"
    by blast
  then show ?thesis by (simp add: stored_new_fields)
qed

text \<open>
  C3 as stated fails: when the store already holds the key with the requested
  material, the first run does not report \<open>changed\<close>.
\<close>

theorem present_twice_counterexample:
  "fst (ensure_key_present store_fetch sample_session ''deploy-key'' ''ssh-rsa AAAA'' True False
          (sample_net [sample_key 11 ''deploy-key'' ''ssh-rsa AAAA'']))
     = Inr \<lparr>changed = False, deleted_keys = [],
            matching_keys = [sample_key 11 ''deploy-key'' ''ssh-rsa AAAA''],
            key = KeyObject (sample_key 11 ''deploy-key'' ''ssh-rsa AAAA'')\<rparr>"
proof -
  let ?n = "sample_net [sample_key 11 ''deploy-key'' ''ssh-rsa AAAA'']"
  have "filter (\<lambda>k. key_title k = ''deploy-key'') (stored_keys (world ?n)) = sample_key 11 ''deploy-key'' ''ssh-rsa AAAA'' # []"
    by (simp add: sample_store_fields sample_key_fields)
  then have "ensure_key_present store_fetch sample_session ''deploy-key'' ''ssh-rsa AAAA'' True False ?n =
     (Inr \<lparr>changed = False, deleted_keys = [], matching_keys = sample_key 11 ''deploy-key'' ''ssh-rsa AAAA'' # [],
           key = KeyObject (sample_key 11 ''deploy-key'' ''ssh-rsa AAAA'')\<rparr>,
      ?n\<lparr>sent := sent ?n @ [list_request sample_session]\<rparr>)"
    by (rule store_present_keep) (simp add: sample_key_fields)
  then show ?thesis by simp
qed

text \<open>
  C4. In check mode, for every service and whatever the outcome, \<^verbatim>\<open>ensure_key_present\<close>
  and \<^verbatim>\<open>ensure_key_absent\<close> send the listing request, a GET, and nothing else: no POST
  and no DELETE. When \<^verbatim>\<open>ensure_key_present\<close> takes the create path (its matching keys
  are empty) the resulting key is the synthetic record: identifier 0, the requested
  title and key, the placeholder URL, neither read-only nor verified, and
  \<open>created_at\<close> the clock's reading in the shape \<^verbatim>\<open>YYYY-MM-DDTHH:MM:SSZ\<close>. When the
  listing succeeds, \<^verbatim>\<open>ensure_key_absent\<close> reports every key with the title as deleted
  and leaves the network where the listing left it.
\<close>

theorem dry_run_sends_only_the_listing:
  "(\<forall>out n'. ensure_key_present fetch_url session name pubkey force True n = (out, n')
       \<longrightarrow> issued n n' = [list_request session])
   \<and> (\<forall>out n'. ensure_key_absent fetch_url session name True n = (out, n')
       \<longrightarrow> issued n n' = [list_request session])
   \<and> req_method (list_request session) = GET
   \<and> (\<forall>r n'. ensure_key_present fetch_url session name pubkey force True n = (Inr r, n')
         \<and> matching_keys r = [] \<longrightarrow>
         key r = KeyObject \<lparr>key_id = 0, key_key = pubkey, key_title = name,
                            key_url = ''http://example.com/CHECK_MODE_GITHUB_KEY'',
                            key_created_at = strftime (utcnow n),
                            key_read_only = False, key_verified = False\<rparr>)
   \<and> iso_utc_shape (strftime (utcnow n))
   \<and> (\<forall>all_keys n1. get_all_keys fetch_url session n = (Inr all_keys, n1) \<longrightarrow>
         ensure_key_absent fetch_url session name True n =
           (Inr \<lparr>a_changed = (filter (\<lambda>k. key_title k = name) all_keys \<noteq> []),
                 a_deleted_keys = filter (\<lambda>k. key_title k = name) all_keys\<rparr>, n1))"
proof (intro conjI allI impI)
  fix out n'
  assume run: "ensure_key_present fetch_url session name pubkey force True n = (out, n')"
  obtain l n1 where listing: "get_all_keys fetch_url session n = (l, n1)"
    by (cases "get_all_keys fetch_url session n")
  then have s1: "sent n1 = sent n @ [list_request session]"
    by (auto dest: get_all_keys_sent)
  have "n' = n1"
  proof (cases l)
    case (Inl e)
    with listing run show ?thesis by (simp add: present_listing_error)
  next
    case (Inr all_keys)
    with listing run show ?thesis by (simp add: present_check_mode Let_def)
  qed
  with s1 show "issued n n' = [list_request session]" by (simp add: issued_append)
next
  fix out n'
  assume run: "ensure_key_absent fetch_url session name True n = (out, n')"
  obtain l n1 where listing: "get_all_keys fetch_url session n = (l, n1)"
    by (cases "get_all_keys fetch_url session n")
  then have s1: "sent n1 = sent n @ [list_request session]"
    by (auto dest: get_all_keys_sent)
  have "n' = n1"
    using listing run by (cases l) (simp_all add: ensure_key_absent_def delete_keys_def Let_def)
  with s1 show "issued n n' = [list_request session]" by (simp add: issued_append)
next
  show "req_method (list_request session) = GET" by (simp add: list_request_def)
next
  fix r n'
  assume run: "ensure_key_present fetch_url session name pubkey force True n = (Inr r, n')
         \<and> matching_keys r = []"
  obtain l n1 where listing: "get_all_keys fetch_url session n = (l, n1)"
    by (cases "get_all_keys fetch_url session n")
  show "key r = KeyObject \<lparr>key_id = 0, key_key = pubkey, key_title = name,
                            key_url = ''http://example.com/CHECK_MODE_GITHUB_KEY'',
                            key_created_at = strftime (utcnow n),
                            key_read_only = False, key_verified = False\<rparr>"
  proof (cases l)
    case (Inl e)
    with listing run show ?thesis by (simp add: present_listing_error)
  next
    case (Inr all_keys)
    with listing run show ?thesis
      by (auto simp: present_check_mode Let_def synthetic_key_def split: if_splits)
  qed
next
  show "iso_utc_shape (strftime (utcnow n))" by (rule strftime_shape)
next
  fix all_keys n1
  assume "get_all_keys fetch_url session n = (Inr all_keys, n1)"
  then show "ensure_key_absent fetch_url session name True n =
           (Inr \<lparr>a_changed = (filter (\<lambda>k. key_title k = name) all_keys \<noteq> []),
                 a_deleted_keys = filter (\<lambda>k. key_title k = name) all_keys\<rparr>, n1)"
    by (simp add: ensure_key_absent_def delete_keys_def Let_def)
qed

text \<open>
  Check mode against a store that holds \<^verbatim>\<open>deploy-key\<close> with another material: both
  reconcilers report the key as deleted, and the store is as it was.
\<close>

theorem dry_run_sends_only_the_listing_witness:
  "ensure_key_present store_fetch sample_session ''deploy-key'' ''ssh-rsa BBBB'' True True
     (sample_net [sample_key 11 ''deploy-key'' ''ssh-rsa AAAA'', sample_key 12 ''laptop'' ''ssh-rsa CCCC''])
   = (Inr \<lparr>changed = True,
           deleted_keys = [sample_key 11 ''deploy-key'' ''ssh-rsa AAAA''],
           matching_keys = [],
           key = KeyObject \<lparr>key_id = 0, key_key = ''ssh-rsa BBBB'', key_title = ''deploy-key'',
                            key_url = ''http://example.com/CHECK_MODE_GITHUB_KEY'',
                            key_created_at = ''2016-07-04T09:05:00Z'',
                            key_read_only = False, key_verified = False\<rparr>\<rparr>,
      (sample_net [sample_key 11 ''deploy-key'' ''ssh-rsa AAAA'', sample_key 12 ''laptop'' ''ssh-rsa CCCC''])
        \<lparr>sent := [list_request sample_session]\<rparr>)
   \<and> ensure_key_absent store_fetch sample_session ''deploy-key'' True
     (sample_net [sample_key 11 ''deploy-key'' ''ssh-rsa AAAA'', sample_key 12 ''laptop'' ''ssh-rsa CCCC''])
   = (Inr \<lparr>a_changed = True, a_deleted_keys = [sample_key 11 ''deploy-key'' ''ssh-rsa AAAA'']\<rparr>,
      (sample_net [sample_key 11 ''deploy-key'' ''ssh-rsa AAAA'', sample_key 12 ''laptop'' ''ssh-rsa CCCC''])
        \<lparr>sent := [list_request sample_session]\<rparr>)"
proof -
  let ?n = "sample_net [sample_key 11 ''deploy-key'' ''ssh-rsa AAAA'', sample_key 12 ''laptop'' ''ssh-rsa CCCC'']"
  let ?K = "sample_key 11 ''deploy-key'' ''ssh-rsa AAAA''"
  have listing: "get_all_keys store_fetch sample_session ?n =
      (Inr [?K, sample_key 12 ''laptop'' ''ssh-rsa CCCC''], ?n\<lparr>sent := [list_request sample_session]\<rparr>)"
    by (simp add: store_listing sample_net_def)
  have run: "ensure_key_present store_fetch sample_session ''deploy-key'' ''ssh-rsa BBBB'' True True ?n =
      (Inr \<lparr>changed = True, deleted_keys = [?K], matching_keys = [],
            key = KeyObject (synthetic_key ''deploy-key'' ''ssh-rsa BBBB'' sample_now)\<rparr>,
       ?n\<lparr>sent := [list_request sample_session]\<rparr>)"
    by (simp add: present_check_mode [OF listing] Let_def) (simp add: sample_key_def sample_net_def)
  note inst = dry_run_sends_only_the_listing [of store_fetch sample_session "''deploy-key''"
      "''ssh-rsa BBBB''" True ?n]
  have k: "synthetic_key ''deploy-key'' ''ssh-rsa BBBB'' sample_now =
      \<lparr>key_id = 0, key_key = ''ssh-rsa BBBB'', key_title = ''deploy-key'',
        key_url = ''http://example.com/CHECK_MODE_GITHUB_KEY'',
        key_created_at = ''2016-07-04T09:05:00Z'',
        key_read_only = False, key_verified = False\<rparr>"
    using inst run by (simp add: sample_net_def strftime_sample)
  have a: "ensure_key_absent store_fetch sample_session ''deploy-key'' True ?n
     = (Inr \<lparr>a_changed = True, a_deleted_keys = [?K]\<rparr>, ?n\<lparr>sent := [list_request sample_session]\<rparr>)"
    using inst listing by (simp add: sample_key_def)
  from run k a show ?thesis by simp
qed

text \<open>
  C6. For every service on which the listing succeeds with \<open>all_keys\<close>: in check
  mode \<^verbatim>\<open>ensure_key_absent\<close> sends nothing after the listing and returns the keys
  with the title as deleted, \<open>changed\<close> exactly when there is one; outside check mode,
  whenever it returns, it returns the same result and has sent, after the listing,
  one DELETE per key with the title, in listing order, each at the URL of the key's
  identifier; when it ends in an error it has sent the DELETEs of the first keys
  only, up to the one that failed; and it does return when the service answers
  every request with a status from 200 to 399.
\<close>

theorem absent_deletes_every_match:
  assumes "get_all_keys fetch_url session n = (Inr all_keys, n1)"
  shows "sent n1 = sent n @ [list_request session]
    \<and> ensure_key_absent fetch_url session name True n =
        (Inr \<lparr>a_changed = (filter (\<lambda>k. key_title k = name) all_keys \<noteq> []),
              a_deleted_keys = filter (\<lambda>k. key_title k = name) all_keys\<rparr>, n1)
    \<and> (\<forall>r n'. ensure_key_absent fetch_url session name False n = (Inr r, n') \<longrightarrow>
          r = \<lparr>a_changed = (filter (\<lambda>k. key_title k = name) all_keys \<noteq> []),
               a_deleted_keys = filter (\<lambda>k. key_title k = name) all_keys\<rparr>
          \<and> sent n' = sent n1 @ map (delete_request session) (filter (\<lambda>k. key_title k = name) all_keys))
    \<and> (\<forall>out n'. ensure_key_absent fetch_url session name False n = (out, n') \<longrightarrow>
          (\<exists>j \<le> length (filter (\<lambda>k. key_title k = name) all_keys).
             sent n' = sent n1 @ map (delete_request session)
                                   (take j (filter (\<lambda>k. key_title k = name) all_keys))))
    \<and> ((\<forall>w rq. 200 \<le> info_status (snd (fst (fetch_url w rq)))
                  \<and> info_status (snd (fst (fetch_url w rq))) < 400) \<longrightarrow>
          (\<exists>n'. ensure_key_absent fetch_url session name False n =
             (Inr \<lparr>a_changed = (filter (\<lambda>k. key_title k = name) all_keys \<noteq> []),
                   a_deleted_keys = filter (\<lambda>k. key_title k = name) all_keys\<rparr>, n')))"
proof (intro conjI allI impI)
  show "sent n1 = sent n @ [list_request session]"
    using assms by (auto dest: get_all_keys_sent)
next
  show "ensure_key_absent fetch_url session name True n =
        (Inr \<lparr>a_changed = (filter (\<lambda>k. key_title k = name) all_keys \<noteq> []),
              a_deleted_keys = filter (\<lambda>k. key_title k = name) all_keys\<rparr>, n1)"
    using assms by (simp add: ensure_key_absent_def delete_keys_def Let_def)
next
  fix r n'
  assume run: "ensure_key_absent fetch_url session name False n = (Inr r, n')"
  then show "r = \<lparr>a_changed = (filter (\<lambda>k. key_title k = name) all_keys \<noteq> []),
               a_deleted_keys = filter (\<lambda>k. key_title k = name) all_keys\<rparr>"
    using assms by (auto simp: ensure_key_absent_def delete_keys_def Let_def split: prod.splits sum.splits)
  from run show "sent n' = sent n1 @ map (delete_request session) (filter (\<lambda>k. key_title k = name) all_keys)"
    using assms
    by (auto simp: ensure_key_absent_def delete_keys_def Let_def split: prod.splits sum.splits
             dest: delete_each_sent)
next
  fix out n'
  assume run: "ensure_key_absent fetch_url session name False n = (out, n')"
  obtain d n2 where del: "delete_each fetch_url session (filter (\<lambda>k. key_title k = name) all_keys) n1 = (d, n2)"
    by (cases "delete_each fetch_url session (filter (\<lambda>k. key_title k = name) all_keys) n1")
  with run assms have "n' = n2"
    by (cases d) (simp_all add: ensure_key_absent_def delete_keys_def Let_def)
  with delete_each_sent_prefix [OF del]
  show "\<exists>j \<le> length (filter (\<lambda>k. key_title k = name) all_keys).
             sent n' = sent n1 @ map (delete_request session)
                                   (take j (filter (\<lambda>k. key_title k = name) all_keys))"
    by simp
next
  assume ok: "\<forall>w rq. 200 \<le> info_status (snd (fst (fetch_url w rq)))
                  \<and> info_status (snd (fst (fetch_url w rq))) < 400"
  obtain n' where "delete_each fetch_url session (filter (\<lambda>k. key_title k = name) all_keys) n1 = (Inr (), n')"
    using delete_each_ok [OF ok] by blast
  then show "\<exists>n'. ensure_key_absent fetch_url session name False n =
             (Inr \<lparr>a_changed = (filter (\<lambda>k. key_title k = name) all_keys \<noteq> []),
                   a_deleted_keys = filter (\<lambda>k. key_title k = name) all_keys\<rparr>, n')"
    using assms by (simp add: ensure_key_absent_def delete_keys_def Let_def)
qed

text \<open>
  A store with two keys named \<^verbatim>\<open>deploy-key\<close>: both are deleted and the third key
  stays; in check mode both are reported and all three stay.
\<close>

theorem absent_deletes_every_match_witness:
  "ensure_key_absent store_fetch sample_session ''deploy-key'' False
     (sample_net [sample_key 11 ''deploy-key'' ''ssh-rsa AAAA'', sample_key 12 ''laptop'' ''ssh-rsa CCCC'',
                  sample_key 13 ''deploy-key'' ''ssh-rsa DDDD''])
   = (Inr \<lparr>a_changed = True,
           a_deleted_keys = [sample_key 11 ''deploy-key'' ''ssh-rsa AAAA'', sample_key 13 ''deploy-key'' ''ssh-rsa DDDD'']\<rparr>,
      \<lparr>world = \<lparr>stored_keys = [sample_key 12 ''laptop'' ''ssh-rsa CCCC''], next_id = 100,
                stamp = ''2016-07-04T09:05:01Z''\<rparr>,
       sent = [list_request sample_session,
               delete_request sample_session (sample_key 11 ''deploy-key'' ''ssh-rsa AAAA''),
               delete_request sample_session (sample_key 13 ''deploy-key'' ''ssh-rsa DDDD'')],
       utcnow = sample_now\<rparr>)
   \<and> ensure_key_absent store_fetch sample_session ''deploy-key'' True
     (sample_net [sample_key 11 ''deploy-key'' ''ssh-rsa AAAA'', sample_key 12 ''laptop'' ''ssh-rsa CCCC'',
                  sample_key 13 ''deploy-key'' ''ssh-rsa DDDD''])
   = (Inr \<lparr>a_changed = True,
           a_deleted_keys = [sample_key 11 ''deploy-key'' ''ssh-rsa AAAA'', sample_key 13 ''deploy-key'' ''ssh-rsa DDDD'']\<rparr>,
      \<lparr>world = \<lparr>stored_keys = [sample_key 11 ''deploy-key'' ''ssh-rsa AAAA'', sample_key 12 ''laptop'' ''ssh-rsa CCCC'',
                  sample_key 13 ''deploy-key'' ''ssh-rsa DDDD''], next_id = 100,
                stamp = ''2016-07-04T09:05:01Z''\<rparr>,
       sent = [list_request sample_session], utcnow = sample_now\<rparr>)"
proof -
  let ?n = "sample_net [sample_key 11 ''deploy-key'' ''ssh-rsa AAAA'', sample_key 12 ''laptop'' ''ssh-rsa CCCC'',
                  sample_key 13 ''deploy-key'' ''ssh-rsa DDDD'']"
  have listing: "get_all_keys store_fetch sample_session ?n =
     (Inr (stored_keys (world ?n)), ?n\<lparr>sent := sent ?n @ [list_request sample_session]\<rparr>)"
    by (rule store_listing)
  note inst = absent_deletes_every_match [OF listing, of "''deploy-key''"]
  have run: "\<exists>r n'. ensure_key_absent store_fetch sample_session ''deploy-key'' False ?n = (Inr r, n')"
    using store_absent [OF sample_store_distinct, of sample_session "''deploy-key''" False] by simp
  then obtain r n' where rn: "ensure_key_absent store_fetch sample_session ''deploy-key'' False ?n = (Inr r, n')"
    by blast
  have w: "world n' = \<lparr>stored_keys = [sample_key 12 ''laptop'' ''ssh-rsa CCCC''], next_id = 100,
                stamp = ''2016-07-04T09:05:01Z''\<rparr> \<and> utcnow n' = sample_now"
    using store_absent [OF sample_store_distinct, of sample_session "''deploy-key''" False] rn
    by (auto simp: sample_net_def sample_key_def)
  from inst [THEN conjunct2, THEN conjunct2, THEN conjunct1] rn
  have "r = \<lparr>a_changed = True,
           a_deleted_keys = [sample_key 11 ''deploy-key'' ''ssh-rsa AAAA'', sample_key 13 ''deploy-key'' ''ssh-rsa DDDD'']\<rparr>
     \<and> sent n' = [list_request sample_session,
               delete_request sample_session (sample_key 11 ''deploy-key'' ''ssh-rsa AAAA''),
               delete_request sample_session (sample_key 13 ''deploy-key'' ''ssh-rsa DDDD'')]"
    by (simp add: sample_net_def sample_key_def)
  with w rn have real: "ensure_key_absent store_fetch sample_session ''deploy-key'' False ?n
   = (Inr \<lparr>a_changed = True,
           a_deleted_keys = [sample_key 11 ''deploy-key'' ''ssh-rsa AAAA'', sample_key 13 ''deploy-key'' ''ssh-rsa DDDD'']\<rparr>,
      \<lparr>world = \<lparr>stored_keys = [sample_key 12 ''laptop'' ''ssh-rsa CCCC''], next_id = 100,
                stamp = ''2016-07-04T09:05:01Z''\<rparr>,
       sent = [list_request sample_session,
               delete_request sample_session (sample_key 11 ''deploy-key'' ''ssh-rsa AAAA''),
               delete_request sample_session (sample_key 13 ''deploy-key'' ''ssh-rsa DDDD'')],
       utcnow = sample_now\<rparr>)"
    by (cases n') simp
  from inst [THEN conjunct2, THEN conjunct1]
  have dry: "ensure_key_absent store_fetch sample_session ''deploy-key'' True ?n
   = (Inr \<lparr>a_changed = True,
           a_deleted_keys = [sample_key 11 ''deploy-key'' ''ssh-rsa AAAA'', sample_key 13 ''deploy-key'' ''ssh-rsa DDDD'']\<rparr>,
      \<lparr>world = \<lparr>stored_keys = [sample_key 11 ''deploy-key'' ''ssh-rsa AAAA'', sample_key 12 ''laptop'' ''ssh-rsa CCCC'',
                  sample_key 13 ''deploy-key'' ''ssh-rsa DDDD''], next_id = 100,
                stamp = ''2016-07-04T09:05:01Z''\<rparr>,
       sent = [list_request sample_session], utcnow = sample_now\<rparr>)"
    by (simp add: sample_net_def sample_key_def)
  from real dry show ?thesis by (rule conjI)
qed

text \<open>
  C9 (as amended). When the listing gives \<open>all_keys\<close> and \<^verbatim>\<open>ensure_key_present\<close>
  returns, its matching keys are empty if no key has the title or if \<open>force\<close> is set
  and the first such key has another material (a key is then created); otherwise
  they are all the listed keys with the title, in listing order, the first of them
  is the resulting key and \<open>changed\<close> is false. So the field has at most one element
  when at most one listed key has the title, and more otherwise.
\<close>

theorem matching_keys_empty_or_every_match:
  assumes "get_all_keys fetch_url session n = (Inr all_keys, n1)"
    and "ensure_key_present fetch_url session name pubkey force check_mode n = (Inr r, n')"
  shows "matching_keys r =
           (if filter (\<lambda>k. key_title k = name) all_keys = []
               \<or> (force \<and> key_key (hd (filter (\<lambda>k. key_title k = name) all_keys)) \<noteq> pubkey)
            then [] else filter (\<lambda>k. key_title k = name) all_keys)
     \<and> (matching_keys r \<noteq> [] \<longrightarrow> key r = KeyObject (hd (matching_keys r)) \<and> \<not> changed r)
     \<and> (length (filter (\<lambda>k. key_title k = name) all_keys) \<le> 1 \<longrightarrow> length (matching_keys r) \<le> 1)"
proof -
  note m = present_matching [OF assms]
  have "matching_keys r \<noteq> [] \<Longrightarrow> \<not> changed r"
    using m(1,2,3) by (auto split: if_splits)
  then show ?thesis
    using m(1) m(4) by (auto split: if_splits)
qed

text \<open>
  One key named \<^verbatim>\<open>deploy-key\<close> with the requested material: it is the one matching key.
\<close>

theorem matching_keys_empty_or_every_match_witness:
  "fst (ensure_key_present store_fetch sample_session ''deploy-key'' ''ssh-rsa AAAA'' True False
          (sample_net [sample_key 11 ''deploy-key'' ''ssh-rsa AAAA'', sample_key 12 ''laptop'' ''ssh-rsa CCCC'']))
     = Inr \<lparr>changed = False, deleted_keys = [],
            matching_keys = [sample_key 11 ''deploy-key'' ''ssh-rsa AAAA''],
            key = KeyObject (sample_key 11 ''deploy-key'' ''ssh-rsa AAAA'')\<rparr>"
proof -
  let ?n = "sample_net [sample_key 11 ''deploy-key'' ''ssh-rsa AAAA'', sample_key 12 ''laptop'' ''ssh-rsa CCCC'']"
  let ?K = "sample_key 11 ''deploy-key'' ''ssh-rsa AAAA''"
  have listing: "get_all_keys store_fetch sample_session ?n =
      (Inr (stored_keys (world ?n)), ?n\<lparr>sent := sent ?n @ [list_request sample_session]\<rparr>)"
    by (rule store_listing)
  have "filter (\<lambda>k. key_title k = ''deploy-key'') (stored_keys (world ?n)) = ?K # []"
    by (simp add: sample_store_fields sample_key_fields)
  then have "ensure_key_present store_fetch sample_session ''deploy-key'' ''ssh-rsa AAAA'' True False ?n =
     (Inr \<lparr>changed = False, deleted_keys = [], matching_keys = ?K # [], key = KeyObject ?K\<rparr>,
      ?n\<lparr>sent := sent ?n @ [list_request sample_session]\<rparr>)"
    by (rule store_present_keep) (simp add: sample_key_fields)
  then obtain r n' where run: "ensure_key_present store_fetch sample_session ''deploy-key'' ''ssh-rsa AAAA'' True False ?n = (Inr r, n')"
    and del: "deleted_keys r = []"
    by auto
  from matching_keys_empty_or_every_match [OF listing run]
  have "matching_keys r = [?K] \<and> key r = KeyObject ?K \<and> \<not> changed r"
    by (simp add: sample_store_fields sample_key_fields)
  with run del show ?thesis by (cases r) simp
qed

text \<open>
  C9 as stated fails: with two keys named \<^verbatim>\<open>deploy-key\<close>, the first of the requested
  material, the matching keys are both of them.
\<close>

theorem matching_keys_at_most_one_counterexample:
  "fst (ensure_key_present store_fetch sample_session ''deploy-key'' ''ssh-rsa AAAA'' True False
          (sample_net [sample_key 11 ''deploy-key'' ''ssh-rsa AAAA'', sample_key 13 ''deploy-key'' ''ssh-rsa DDDD'']))
     = Inr \<lparr>changed = False, deleted_keys = [],
            matching_keys = [sample_key 11 ''deploy-key'' ''ssh-rsa AAAA'', sample_key 13 ''deploy-key'' ''ssh-rsa DDDD''],
            key = KeyObject (sample_key 11 ''deploy-key'' ''ssh-rsa AAAA'')\<rparr>
   \<and> \<not> length [sample_key 11 ''deploy-key'' ''ssh-rsa AAAA'', sample_key 13 ''deploy-key'' ''ssh-rsa DDDD''] \<le> 1"
proof -
  let ?n = "sample_net [sample_key 11 ''deploy-key'' ''ssh-rsa AAAA'', sample_key 13 ''deploy-key'' ''ssh-rsa DDDD'']"
  have "filter (\<lambda>k. key_title k = ''deploy-key'') (stored_keys (world ?n))
      = sample_key 11 ''deploy-key'' ''ssh-rsa AAAA'' # [sample_key 13 ''deploy-key'' ''ssh-rsa DDDD'']"
    by (simp add: sample_store_fields sample_key_fields)
  then have "ensure_key_present store_fetch sample_session ''deploy-key'' ''ssh-rsa AAAA'' True False ?n =
     (Inr \<lparr>changed = False, deleted_keys = [],
           matching_keys = sample_key 11 ''deploy-key'' ''ssh-rsa AAAA'' # [sample_key 13 ''deploy-key'' ''ssh-rsa DDDD''],
           key = KeyObject (sample_key 11 ''deploy-key'' ''ssh-rsa AAAA'')\<rparr>,
      ?n\<lparr>sent := sent ?n @ [list_request sample_session]\<rparr>)"
    by (rule store_present_keep) (simp add: sample_key_fields)
  then show ?thesis by simp
qed

section \<open>Claims about validation\<close>

text \<open>
  C10. An empty \<open>pubkey\<close> with \<open>state=present\<close> ends the invocation with the message
  that \<open>pubkey\<close> is required, which is not the message about the format, and leaves
  the network state as it was: no request was handed to \<^verbatim>\<open>fetch_url\<close>. For every
  state, the empty string gives the outcome that a missing \<open>pubkey\<close> gives.
\<close>

theorem empty_pubkey_is_missing_pubkey:
  "main fetch_url (p\<lparr>p_pubkey := Some [], p_state := present\<rparr>) n = (Inl (FailJson required_msg), n)
   \<and> FailJson required_msg \<noteq> FailJson invalid_format_msg
   \<and> main fetch_url (p\<lparr>p_pubkey := Some []\<rparr>) n = main fetch_url (p\<lparr>p_pubkey := None\<rparr>) n"
  by (cases "p_state p") (simp_all add: main_def check_pubkey_def required_msg_def invalid_format_msg_def)

text \<open>
  C5. Validation comes before any request. A non-empty \<open>pubkey\<close> without a space
  character, such as the single token \<^verbatim>\<open>ssh-rsa\<close>, ends the invocation with the
  format message and the network state untouched; so does \<open>state=present\<close> without a
  \<open>pubkey\<close>, with the message that it is required. With \<open>state=absent\<close> and no
  \<open>pubkey\<close> the invocation goes on to \<^verbatim>\<open>ensure_key_absent\<close>, and whatever error it
  may still end with is not a validation error.
\<close>

theorem validation_before_network:
  "(raw \<noteq> [] \<and> CHR '' '' \<notin> set raw \<longrightarrow>
      main fetch_url (p\<lparr>p_pubkey := Some raw\<rparr>) n = (Inl (FailJson invalid_format_msg), n))
   \<and> main fetch_url (p\<lparr>p_pubkey := None, p_state := present\<rparr>) n = (Inl (FailJson required_msg), n)
   \<and> main fetch_url (p\<lparr>p_pubkey := None, p_state := absent\<rparr>) n
       = absent_outcome (ensure_key_absent fetch_url \<lparr>token = p_token p\<rparr> (p_name p) (p_check_mode p) n)
   \<and> (\<forall>e. fst (main fetch_url (p\<lparr>p_pubkey := None, p_state := absent\<rparr>) n) = Inl e
          \<longrightarrow> \<not> validation_error e)"
proof (intro conjI impI allI)
  assume "raw \<noteq> [] \<and> CHR '' '' \<notin> set raw"
  then show "main fetch_url (p\<lparr>p_pubkey := Some raw\<rparr>) n = (Inl (FailJson invalid_format_msg), n)"
    by (simp add: main_def check_pubkey_no_space)
next
  show "main fetch_url (p\<lparr>p_pubkey := None, p_state := present\<rparr>) n = (Inl (FailJson required_msg), n)"
    by (simp add: main_def check_pubkey_present_empty)
next
  show eq: "main fetch_url (p\<lparr>p_pubkey := None, p_state := absent\<rparr>) n
       = absent_outcome (ensure_key_absent fetch_url \<lparr>token = p_token p\<rparr> (p_name p) (p_check_mode p) n)"
    by (simp add: main_def check_pubkey_absent_empty absent_outcome_def)
  fix e
  assume "fst (main fetch_url (p\<lparr>p_pubkey := None, p_state := absent\<rparr>) n) = Inl e"
  then show "\<not> validation_error e"
    unfolding eq absent_outcome_def
    by (auto split: prod.splits sum.splits dest: ensure_key_absent_error)
qed

text \<open>The three cases on the store, and an invocation that passes validation and then
  fails in the listing.\<close>

theorem validation_before_network_witness:
  "main store_fetch (sample_params (Some ''ssh-rsa'') present) (sample_net [])
     = (Inl (FailJson invalid_format_msg), sample_net [])
   \<and> main store_fetch (sample_params None present) (sample_net [])
     = (Inl (FailJson required_msg), sample_net [])
   \<and> fst (main store_fetch (sample_params None absent) (sample_net []))
     = Inr (AbsentResult \<lparr>a_changed = False, a_deleted_keys = []\<rparr>)
   \<and> fst (main three_pages (sample_params None absent) sample_pages_net) = Inl AttributeError
   \<and> \<not> validation_error AttributeError"
  using validation_before_network [of "''ssh-rsa''" store_fetch "sample_params None present" "sample_net []"]
    validation_before_network [of "''ssh-rsa''" three_pages "sample_params None present" sample_pages_net]
  by (simp add: sample_params_def ensure_key_absent_def sample_listing sample_pages_listing
        delete_keys_def absent_outcome_def)

text \<open>
  C7 (as amended). The normalization splits on the space character alone. Write the
  raw key as fields without a space in them, joined by single spaces (every string
  is such a join, its fields possibly empty): a non-empty key of fewer than two
  fields is rejected with the format message, and otherwise the first two fields,
  joined by one space, are kept and the rest discarded. When every field is a
  non-empty run free of whitespace, this is what the specification's splitting on
  whitespace gives.
\<close>

theorem normalization_splits_on_space:
  assumes "\<forall>f \<in> set fs. CHR '' '' \<notin> set f" and "join '' '' fs \<noteq> []"
  shows "check_pubkey st (Some (join '' '' fs)) =
           (if length fs < 2 then Inl (FailJson invalid_format_msg)
            else Inr (Some (fs ! 0 @ '' '' @ fs ! 1)))
         \<and> ((\<forall>f \<in> set fs. f \<noteq> [] \<and> (\<forall>c \<in> set f. \<not> is_whitespace c)) \<longrightarrow>
              spec_normalize_pubkey (join '' '' fs) =
                (if length fs < 2 then Inl (FailJson invalid_format_msg)
                 else Inr (fs ! 0 @ '' '' @ fs ! 1)))"
proof (intro conjI impI)
  show "check_pubkey st (Some (join '' '' fs)) =
           (if length fs < 2 then Inl (FailJson invalid_format_msg)
            else Inr (Some (fs ! 0 @ '' '' @ fs ! 1)))"
    using assms by (rule check_pubkey_fields)
next
  assume tok: "\<forall>f \<in> set fs. f \<noteq> [] \<and> (\<forall>c \<in> set f. \<not> is_whitespace c)"
  from assms(2) have "fs \<noteq> []" by auto
  then have "spec_whitespace_tokens (join '' '' fs) = fs"
    using tok by (rule tokens_join)
  then show "spec_normalize_pubkey (join '' '' fs) =
                (if length fs < 2 then Inl (FailJson invalid_format_msg)
                 else Inr (fs ! 0 @ '' '' @ fs ! 1))"
    by (simp add: spec_normalize_pubkey_def)
qed

text \<open>The key of the specification's end-to-end example: three fields, the comment dropped.\<close>

theorem normalization_splits_on_space_witness:
  "check_pubkey present (Some ''ssh-ed25519 AAAAC3N comment'') = Inr (Some ''ssh-ed25519 AAAAC3N'')
   \<and> spec_normalize_pubkey ''ssh-ed25519 AAAAC3N comment'' = Inr ''ssh-ed25519 AAAAC3N''"
  using normalization_splits_on_space [of "[''ssh-ed25519'', ''AAAAC3N'', ''comment'']" present]
  by (simp add: is_whitespace_def)

text \<open>
  C7 as stated fails. A trailing space leaves one whitespace token, yet the code
  accepts the key; a doubled space makes the second field empty, and the code drops
  the key data; a tab separates two whitespace tokens, yet the code rejects the key.
\<close>

theorem normalization_on_whitespace_counterexample:
  "spec_normalize_pubkey ''ssh-rsa '' = Inl (FailJson invalid_format_msg)
   \<and> check_pubkey present (Some ''ssh-rsa '') = Inr (Some ''ssh-rsa '')
   \<and> spec_normalize_pubkey ''ssh-rsa  AAAA'' = Inr ''ssh-rsa AAAA''
   \<and> check_pubkey present (Some ''ssh-rsa  AAAA'') = Inr (Some ''ssh-rsa '')
   \<and> spec_normalize_pubkey (''ssh-rsa'' @ [CHR 0x09] @ ''AAAA'') = Inr ''ssh-rsa AAAA''
   \<and> check_pubkey present (Some (''ssh-rsa'' @ [CHR 0x09] @ ''AAAA'')) = Inl (FailJson invalid_format_msg)"
  by (simp add: spec_normalize_pubkey_def check_pubkey_def is_whitespace_def)

text \<open>
  C8 (as amended). With \<open>state=absent\<close> the \<open>pubkey\<close> is not required, but one that is
  supplied is still checked: a non-empty \<open>pubkey\<close> without a space ends the invocation
  with the format message before any request; in every other case (no \<open>pubkey\<close>, the
  empty string, or a string with a space) the outcome is that of
  \<^verbatim>\<open>ensure_key_absent\<close>, in which the \<open>pubkey\<close> plays no part, and an error it
  may end with is not a validation error.
\<close>

theorem absent_checks_supplied_pubkey:
  "main fetch_url (p\<lparr>p_state := absent, p_pubkey := pk\<rparr>) n =
     (if \<exists>raw. pk = Some raw \<and> raw \<noteq> [] \<and> CHR '' '' \<notin> set raw
      then (Inl (FailJson invalid_format_msg), n)
      else absent_outcome (ensure_key_absent fetch_url \<lparr>token = p_token p\<rparr> (p_name p) (p_check_mode p) n))
   \<and> (\<not> (\<exists>raw. pk = Some raw \<and> raw \<noteq> [] \<and> CHR '' '' \<notin> set raw) \<longrightarrow>
        (\<forall>e. fst (main fetch_url (p\<lparr>p_state := absent, p_pubkey := pk\<rparr>) n) = Inl e
              \<longrightarrow> \<not> validation_error e))"
proof (intro conjI impI allI)
  show "main fetch_url (p\<lparr>p_state := absent, p_pubkey := pk\<rparr>) n =
     (if \<exists>raw. pk = Some raw \<and> raw \<noteq> [] \<and> CHR '' '' \<notin> set raw
      then (Inl (FailJson invalid_format_msg), n)
      else absent_outcome (ensure_key_absent fetch_url \<lparr>token = p_token p\<rparr> (p_name p) (p_check_mode p) n))"
    by (rule main_absent)
next
  fix e
  assume ok: "\<not> (\<exists>raw. pk = Some raw \<and> raw \<noteq> [] \<and> CHR '' '' \<notin> set raw)"
    and err: "fst (main fetch_url (p\<lparr>p_state := absent, p_pubkey := pk\<rparr>) n) = Inl e"
  have "main fetch_url (p\<lparr>p_state := absent, p_pubkey := pk\<rparr>) n =
      absent_outcome (ensure_key_absent fetch_url \<lparr>token = p_token p\<rparr> (p_name p) (p_check_mode p) n)"
    using ok main_absent [of fetch_url pk p n] by (simp only: if_False)
  with err show "\<not> validation_error e"
    unfolding absent_outcome_def
    by (auto split: prod.splits sum.splits dest: ensure_key_absent_error)
qed

text \<open>A well-formed \<open>pubkey\<close> with \<open>state=absent\<close>: the key named \<^verbatim>\<open>deploy-key\<close> is deleted.\<close>

theorem absent_checks_supplied_pubkey_witness:
  "fst (main store_fetch (sample_params (Some ''ssh-rsa AAAA me@host'') absent)
          (sample_net [sample_key 11 ''deploy-key'' ''ssh-rsa AAAA'']))
     = Inr (AbsentResult \<lparr>a_changed = True, a_deleted_keys = [sample_key 11 ''deploy-key'' ''ssh-rsa AAAA'']\<rparr>)"
  using absent_checks_supplied_pubkey [where fetch_url = store_fetch and p = "sample_params None present"
       and pk = "Some ''ssh-rsa AAAA me@host''"
       and n = "sample_net [sample_key 11 ''deploy-key'' ''ssh-rsa AAAA'']"]
    store_absent [of "sample_net [sample_key 11 ''deploy-key'' ''ssh-rsa AAAA'']"
       "\<lparr>token = ''0123abcd''\<rparr>" "''deploy-key''" False]
  by (simp add: sample_params_def sample_net_def sample_key_def absent_outcome_def)

text \<open>C8 as stated fails: \<open>state=absent\<close> with the \<open>pubkey\<close> \<^verbatim>\<open>ssh-rsa\<close> is a validation error.\<close>

theorem absent_ignores_pubkey_form_counterexample:
  "main store_fetch (sample_params (Some ''ssh-rsa'') absent)
        (sample_net [sample_key 11 ''deploy-key'' ''ssh-rsa AAAA''])
     = (Inl (FailJson invalid_format_msg), sample_net [sample_key 11 ''deploy-key'' ''ssh-rsa AAAA''])
   \<and> validation_error (FailJson invalid_format_msg)"
  by (simp add: main_def sample_params_def check_pubkey_def validation_error_def)

end
